theory Spec2Isabelle
  imports Complex_Main "HOL-Library.Sublist" "HOL-Library.Monad_Syntax"
begin

section \<open>Process supervisor (src/lib/daemon-manager.ts)\<close>

text \<open>
  The supervisor keeps a \<^verbatim>\<open>MutableHashMap<string, Daemon>\<close>. A \<^verbatim>\<open>Daemon\<close> holds
  its name, its command, a \<^verbatim>\<open>SubscriptionRef<DaemonState>\<close> and an optional
  \<^verbatim>\<open>RuntimeFiber\<close>. Both the reference cell and the fiber are objects compared by
  identity, so the model gives each an address: a cell is a natural number into the
  store \<open>cells\<close>, a fiber is its position in the list \<open>forked\<close> of the tasks forked
  into the service's scope.
\<close>

datatype DaemonState = Running | Stopped

record Daemon =
  name :: string
  command :: "string list"
  state :: nat
  fiber :: "nat option"

datatype DaemonNotFoundError = DaemonNotFoundError string

record Manager =
  daemons :: "string \<rightharpoonup> Daemon"
  cells :: "nat \<Rightarrow> DaemonState"
  fresh :: nat
  forked :: "Daemon list"
  interrupted :: "nat list"

text \<open>
  The registry of a new service: no daemon, no cell allocated, no task forked.
\<close>

definition empty_manager :: Manager where
  "empty_manager =
     \<lparr>daemons = Map.empty, cells = (\<lambda>_. Stopped), fresh = 0, forked = [], interrupted = []\<rparr>"

text \<open>
  \<^verbatim>\<open>set\<close> takes an \<^verbatim>\<open>Omit<Daemon, "state" | "fiber">\<close>, that is a name and a command.
  For an unknown name it allocates a cell holding \<^verbatim>\<open>"stopped"\<close> and stores
  \<^verbatim>\<open>{...daemon, state}\<close>; for a known name it stores
  \<^verbatim>\<open>{...daemon, state: existing.value.state}\<close>. In both branches the stored object
  has exactly the fields of the argument and \<^verbatim>\<open>state\<close>: no \<^verbatim>\<open>fiber\<close>.
\<close>

definition set_daemon :: "string \<Rightarrow> string list \<Rightarrow> Manager \<Rightarrow> Manager" where
  "set_daemon nm cmd m =
     (case daemons m nm of
        None \<Rightarrow>
          (let st = fresh m in
           m\<lparr>cells := (cells m)(st := Stopped),
             fresh := Suc st,
             daemons := (daemons m)(nm \<mapsto> \<lparr>name = nm, command = cmd, state = st, fiber = None\<rparr>)\<rparr>)
      | Some existing \<Rightarrow>
          m\<lparr>daemons := (daemons m)(nm \<mapsto>
               \<lparr>name = nm, command = cmd, state = state existing, fiber = None\<rparr>)\<rparr>)"

text \<open>
  \<^verbatim>\<open>start\<close>: an unknown name fails; a daemon whose cell reads \<^verbatim>\<open>"running"\<close> returns at
  once; otherwise the task \<^verbatim>\<open>spawnDaemon\<close>, closed over \<^verbatim>\<open>daemon.value\<close>, is forked
  into the scope, the cell is set to \<^verbatim>\<open>"running"\<close> and the entry is stored again
  as \<^verbatim>\<open>{...daemon.value, fiber}\<close>.
\<close>

definition start :: "string \<Rightarrow> Manager \<Rightarrow> (DaemonNotFoundError + unit) \<times> Manager" where
  "start nm m =
     (case daemons m nm of
        None \<Rightarrow> (Inl (DaemonNotFoundError nm), m)
      | Some d \<Rightarrow>
          if cells m (state d) = Running then (Inr (), m)
          else
            (let f = length (forked m) in
             (Inr (),
              m\<lparr>forked := forked m @ [d],
                cells := (cells m)(state d := Running),
                daemons := (daemons m)(nm \<mapsto> d\<lparr>fiber := Some f\<rparr>)\<rparr>)))"

text \<open>
  \<^verbatim>\<open>stop\<close>: an unknown name fails; with a fiber on the entry the fiber is interrupted
  and the cell set to \<^verbatim>\<open>"stopped"\<close>; without one nothing is done.
\<close>

definition stop :: "string \<Rightarrow> Manager \<Rightarrow> (DaemonNotFoundError + unit) \<times> Manager" where
  "stop nm m =
     (case daemons m nm of
        None \<Rightarrow> (Inl (DaemonNotFoundError nm), m)
      | Some d \<Rightarrow>
          (case fiber d of
             Some f \<Rightarrow>
               (Inr (),
                m\<lparr>interrupted := interrupted m @ [f],
                  cells := (cells m)(state d := Stopped)\<rparr>)
           | None \<Rightarrow> (Inr (), m)))"

definition list_daemons :: "Manager \<Rightarrow> Daemon set" where
  "list_daemons m = ran (daemons m)"

subsection \<open>The supervising task\<close>

text \<open>
  \<^verbatim>\<open>spawnDaemon\<close> runs three platform effects in sequence, each of which may fail
  with a \<^verbatim>\<open>PlatformError\<close>: \<^verbatim>\<open>Command.start\<close> on the daemon's command, the wait for
  \<^verbatim>\<open>process.exitCode\<close>, and the fold of the decoded \<^verbatim>\<open>process.stderr\<close> stream with
  \<^verbatim>\<open>(acc, chunk) => acc + chunk\<close> from \<^verbatim>\<open>""\<close>. Then it fails with
  \<^verbatim>\<open>DaemonDiedError\<close>. What the platform answers is a parameter of the model: a
  function from the command to the outcome of \<^verbatim>\<open>Command.start\<close>, where a started
  process carries the outcome of its exit-code wait and of its stderr stream (the
  decoded chunks). The success type of the task is a type variable, since the source
  types it as \<^verbatim>\<open>never\<close>.
\<close>

datatype PlatformError = PlatformError string

record Process =
  exitCode :: "PlatformError + int"
  stderr :: "PlatformError + string list"

text \<open>
  The failures of the task. \<^verbatim>\<open>DaemonDiedError\<close> carries, in this order, the fields
  \<^verbatim>\<open>daemon\<close>, \<^verbatim>\<open>exitCode\<close> and \<^verbatim>\<open>message\<close>.
\<close>

datatype FiberFailure =
    DaemonDiedError Daemon int string
  | Platform PlatformError

text \<open>
  The stderr stream decodes its chunks and folds them with
  \<^verbatim>\<open>(acc, chunk) => acc + chunk\<close> from the empty string.
\<close>

definition runFold :: "string list \<Rightarrow> string" where
  "runFold chunks = foldl (\<lambda>acc chunk. acc @ chunk) [] chunks"

definition spawnDaemon ::
  "(string list \<Rightarrow> PlatformError + Process) \<Rightarrow> Daemon \<Rightarrow> FiberFailure + 'a" where
  "spawnDaemon command_start d =
     (case command_start (command d) of
        Inl e \<Rightarrow> Inl (Platform e)
      | Inr process \<Rightarrow>
          (case exitCode process of
             Inl e \<Rightarrow> Inl (Platform e)
           | Inr code \<Rightarrow>
               (case stderr process of
                  Inl e \<Rightarrow> Inl (Platform e)
                | Inr chunks \<Rightarrow>
                    Inl (DaemonDiedError d code (runFold chunks)))))"

text \<open>
  The result of the task behind fiber \<open>f\<close>, when it is left to run: \<^verbatim>\<open>spawnDaemon\<close>
  on the daemon it was forked with.
\<close>

definition fiber_exit ::
  "(string list \<Rightarrow> PlatformError + Process) \<Rightarrow> Manager \<Rightarrow> nat \<Rightarrow> (FiberFailure + 'a) option" where
  "fiber_exit command_start m f =
     (if f < length (forked m) then Some (spawnDaemon command_start (forked m ! f)) else None)"

section \<open>Event line parsers\<close>

text \<open>
  The parsers match a line against regular expressions. A JavaScript string is a
  sequence of UTF-16 code units; the model takes the strings whose code units are
  below 256, one \<open>char\<close> each. The character classes are the ones of a regular
  expression without the \<^verbatim>\<open>u\<close> and \<^verbatim>\<open>i\<close> flags, cut to that range:
  \<^verbatim>\<open>\w\<close> is \<^verbatim>\<open>[A-Za-z0-9_]\<close>, \<^verbatim>\<open>\d\<close> is \<^verbatim>\<open>[0-9]\<close>, \<^verbatim>\<open>\s\<close> is tab, line feed,
  vertical tab, form feed, carriage return, space and no-break space, and \<^verbatim>\<open>.\<close> is
  every character but the line terminators (line feed and carriage return in this
  range).
\<close>

definition is_word :: "char \<Rightarrow> bool" where
  "is_word c =
     (97 \<le> (of_char c :: nat) \<and> (of_char c :: nat) \<le> 122
      \<or> 65 \<le> (of_char c :: nat) \<and> (of_char c :: nat) \<le> 90
      \<or> 48 \<le> (of_char c :: nat) \<and> (of_char c :: nat) \<le> 57
      \<or> c = CHR ''_'')"

definition is_digit :: "char \<Rightarrow> bool" where
  "is_digit c = (48 \<le> (of_char c :: nat) \<and> (of_char c :: nat) \<le> 57)"

definition is_word_or_hyphen :: "char \<Rightarrow> bool" where
  "is_word_or_hyphen c = (is_word c \<or> c = CHR ''-'')"

definition is_space :: "char \<Rightarrow> bool" where
  "is_space c =
     (9 \<le> (of_char c :: nat) \<and> (of_char c :: nat) \<le> 13
      \<or> c = CHR '' '' \<or> c = CHR 0xA0)"

definition is_line_terminator :: "char \<Rightarrow> bool" where
  "is_line_terminator c = (c = CHR 0x0A \<or> c = CHR 0x0D)"

definition is_dot :: "char \<Rightarrow> bool" where
  "is_dot c = (\<not> is_line_terminator c)"

abbreviation apos :: string where
  "apos \<equiv> [CHR 0x27]"

text \<open>
  The pieces the expressions are made of, each reading a prefix of the remaining
  input. \<open>lit s\<close> is the literal \<open>s\<close>. \<open>many1 P\<close> is a greedy \<^verbatim>\<open>+\<close> over the class
  \<open>P\<close>: it takes the longest non-empty run. In each expression below the piece
  after such a run starts with a character outside the class (or is the end of the
  input), so a match exists only with the longest run and nothing is lost by not
  backtracking.
\<close>

definition lit :: "string \<Rightarrow> string \<Rightarrow> string option" where
  "lit s inp = (if prefix s inp then Some (drop (length s) inp) else None)"

definition many1 :: "(char \<Rightarrow> bool) \<Rightarrow> string \<Rightarrow> (string \<times> string) option" where
  "many1 P inp =
     (if takeWhile P inp = [] then None else Some (takeWhile P inp, dropWhile P inp))"

definition at_end :: "string \<Rightarrow> unit option" where
  "at_end inp = (if inp = [] then Some () else None)"

text \<open>
  \<^verbatim>\<open>(.+)'$\<close>: the rest of the input is a non-empty run of \<^verbatim>\<open>.\<close> followed by an
  apostrophe and the end of the input. The apostrophe is then the last character,
  and the group is everything before it.
\<close>

definition dots_apos_end :: "string \<Rightarrow> string option" where
  "dots_apos_end inp =
     (if inp \<noteq> [] \<and> last inp = CHR 0x27 \<and> butlast inp \<noteq> [] \<and> list_all is_dot (butlast inp)
      then Some (butlast inp) else None)"

subsection \<open>Network monitor lines (parseMonitorLine)\<close>

datatype MonitorEventType = Connected | Disconnected | Connecting | Connectivity

record MonitorEvent =
  type :: MonitorEventType
  device :: "string option"
  ssid :: "string option"
  connectivity :: "string option"

text \<open>\<^verbatim>\<open>/^(\w+): connected$/\<close>\<close>

definition connectedMatch :: "string \<Rightarrow> string option" where
  "connectedMatch line =
     do { (dev, r) \<leftarrow> many1 is_word line;
          r' \<leftarrow> lit '': connected'' r;
          _ \<leftarrow> at_end r';
          Some dev }"

text \<open>\<^verbatim>\<open>/^(\w+): disconnected$/\<close>\<close>

definition disconnectedMatch :: "string \<Rightarrow> string option" where
  "disconnectedMatch line =
     do { (dev, r) \<leftarrow> many1 is_word line;
          r' \<leftarrow> lit '': disconnected'' r;
          _ \<leftarrow> at_end r';
          Some dev }"

text \<open>\<^verbatim>\<open>/^(\w+): using connection '(.+)'$/\<close>\<close>

definition usingMatch :: "string \<Rightarrow> (string \<times> string) option" where
  "usingMatch line =
     do { (dev, r) \<leftarrow> many1 is_word line;
          r' \<leftarrow> lit ('': using connection '' @ apos) r;
          conn \<leftarrow> dots_apos_end r';
          Some (dev, conn) }"

text \<open>\<^verbatim>\<open>/^Connectivity is now '(\w+)'$/\<close>\<close>

definition connectivityMatch :: "string \<Rightarrow> string option" where
  "connectivityMatch line =
     do { r \<leftarrow> lit (''Connectivity is now '' @ apos) line;
          (level, r') \<leftarrow> many1 is_word r;
          r'' \<leftarrow> lit apos r';
          _ \<leftarrow> at_end r'';
          Some level }"

text \<open>
  The parser tries the four expressions in the order of the source. The value of
  \<^verbatim>\<open>connectivity\<close> is the group as matched: the cast to \<^verbatim>\<open>ConnectivityState\<close> checks
  nothing at run time.
\<close>

definition parseMonitorLine :: "string \<Rightarrow> MonitorEvent option" where
  "parseMonitorLine line =
     (case connectedMatch line of
        Some dev \<Rightarrow>
          Some \<lparr>type = Connected, device = Some dev, ssid = None, connectivity = None\<rparr>
      | None \<Rightarrow>
     (case disconnectedMatch line of
        Some dev \<Rightarrow>
          Some \<lparr>type = Disconnected, device = Some dev, ssid = None, connectivity = None\<rparr>
      | None \<Rightarrow>
     (case usingMatch line of
        Some (dev, conn) \<Rightarrow>
          Some \<lparr>type = Connecting, device = Some dev, ssid = Some conn, connectivity = None\<rparr>
      | None \<Rightarrow>
     (case connectivityMatch line of
        Some level \<Rightarrow>
          Some \<lparr>type = Connectivity, device = None, ssid = None, connectivity = Some level\<rparr>
      | None \<Rightarrow> None))))"

subsection \<open>Numbers\<close>

text \<open>
  A JavaScript number is an IEEE 754 double. The parsers only make numbers that are
  not negative, so the model has the finite doubles from zero on, each as the
  rational it stands for, and the positive infinity.
\<close>

datatype Number = Finite rat | Infinity

text \<open>The number of binary digits of a positive integer.\<close>

function bits :: "int \<Rightarrow> int" where
  "bits n = (if n \<le> 0 then 0 else 1 + bits (n div 2))"
  by pat_completeness auto
termination
  by (relation "measure nat") auto

declare bits.simps [simp del]

text \<open>
  For a positive rational \<open>x\<close>, the integer \<open>e\<close> with \<open>2^e \<le> x < 2^(e+1)\<close>: the
  difference of the digit counts of numerator and denominator, or one less.
\<close>

definition ilog2 :: "rat \<Rightarrow> int" where
  "ilog2 x =
     (let (a, b) = quotient_of x;
          d = bits a - bits b
      in if power_int 2 d \<le> x then d else d - 1)"

text \<open>The nearest integer, a tie going to the even one.\<close>

definition half_even :: "rat \<Rightarrow> int" where
  "half_even x =
     (let f = \<lfloor>x\<rfloor>; r = x - of_int f
      in if 1 / 2 < r \<or> (r = 1 / 2 \<and> odd f) then f + 1 else f)"

text \<open>
  The double nearest to a rational that is not negative (round to nearest, ties to
  even): 53 significant binary digits, the unit in the last place never below
  \<open>2^-1074\<close>, and infinity when the rounded value reaches \<open>2^1024\<close>.
\<close>

definition to_double :: "rat \<Rightarrow> Number" where
  "to_double x =
     (if x = 0 then Finite 0
      else
        (let u = power_int 2 (max (ilog2 x - 52) (- 1074));
             y = of_int (half_even (x / u)) * u
         in if 2 ^ 1024 \<le> y then Infinity else Finite y))"

text \<open>
  \<^verbatim>\<open>x / d\<close> and \<^verbatim>\<open>x * d\<close> for a positive finite double \<open>d\<close>, and \<^verbatim>\<open>Math.round(x)\<close>, the
  nearest integer with a half going upwards (exact on a double).
\<close>

definition number_divide :: "Number \<Rightarrow> rat \<Rightarrow> Number" where
  "number_divide x d = (case x of Finite v \<Rightarrow> to_double (v / d) | Infinity \<Rightarrow> Infinity)"

definition number_times :: "Number \<Rightarrow> rat \<Rightarrow> Number" where
  "number_times x d = (case x of Finite v \<Rightarrow> to_double (v * d) | Infinity \<Rightarrow> Infinity)"

definition Math_round :: "Number \<Rightarrow> Number" where
  "Math_round x = (case x of Finite v \<Rightarrow> Finite (of_int \<lfloor>v + 1 / 2\<rfloor>) | Infinity \<Rightarrow> Infinity)"

text \<open>
  \<^verbatim>\<open>parseInt(digits, 10)\<close> is only applied to a group matched by \<^verbatim>\<open>\d+\<close>: it is the
  decimal value of the digits, as a number, that is rounded to the nearest double.
  (For more than 20 significant digits ECMAScript lets an implementation read the
  digits after the 20th as zeros; the model takes the value of all the digits.)
\<close>

definition decimal :: "string \<Rightarrow> int" where
  "decimal ds = foldl (\<lambda>acc c. 10 * acc + ((of_char c :: int) - 48)) 0 ds"

definition parseInt :: "string \<Rightarrow> Number" where
  "parseInt ds = to_double (of_int (decimal ds))"

subsection \<open>Audio subscription lines (parseSubscribeLine)\<close>

record AudioEvent =
  action :: string
  object :: string
  index :: Number

text \<open>\<^verbatim>\<open>/^Event '(\w+)' on ([\w-]+) #(\d+)$/\<close>\<close>

definition subscribeMatch :: "string \<Rightarrow> (string \<times> string \<times> string) option" where
  "subscribeMatch line =
     do { r1 \<leftarrow> lit (''Event '' @ apos) line;
          (act, r2) \<leftarrow> many1 is_word r1;
          r3 \<leftarrow> lit (apos @ '' on '') r2;
          (obj, r4) \<leftarrow> many1 is_word_or_hyphen r3;
          r5 \<leftarrow> lit '' #'' r4;
          (idx, r6) \<leftarrow> many1 is_digit r5;
          _ \<leftarrow> at_end r6;
          Some (act, obj, idx) }"

text \<open>
  The casts to \<^verbatim>\<open>AudioEventAction\<close> and \<^verbatim>\<open>AudioEventObject\<close> check nothing at run
  time, so the event carries the two groups as matched.
\<close>

definition parseSubscribeLine :: "string \<Rightarrow> AudioEvent option" where
  "parseSubscribeLine line =
     (case subscribeMatch line of
        None \<Rightarrow> None
      | Some (act, obj, idx) \<Rightarrow>
          if act = [] \<or> obj = [] \<or> idx = [] then None
          else Some \<lparr>action = act, object = obj, index = parseInt idx\<rparr>)"

subsection \<open>Fast-path wifi signal (readWifiSignal)\<close>

text \<open>
  \<^verbatim>\<open>new RegExp(`^\\s*${device}:\\s+\\d+\\s+(\\d+)\\.`, "m")\<close>. The device name is pasted
  into the source of the expression, where a name that has none of the characters
  \<^verbatim>\<open>\ ^ $ . | ? * + ( ) [ ] { }\<close> stands for itself and, having no whitespace, begins
  where the run matched by \<^verbatim>\<open>\s*\<close> ends. The model is about these names only: they
  form the type \<open>device_name\<close>, and a name with one of those characters, which the
  expression reads as syntax, or with whitespace is not a value of it.
  \<open>row_here\<close> is the expression after \<^verbatim>\<open>^\<close>, at the current position.
\<close>

definition is_syntax_character :: "char \<Rightarrow> bool" where
  "is_syntax_character c =
     (c \<in> set
       [CHR 0x5C, CHR ''^'', CHR ''$'', CHR ''.'', CHR ''|'', CHR ''?'', CHR ''*'', CHR ''+'',
        CHR ''('', CHR '')'', CHR ''['', CHR '']'', CHR ''{'', CHR ''}''])"

definition plain_device :: "string \<Rightarrow> bool" where
  "plain_device dev = list_all (\<lambda>c. \<not> is_space c \<and> \<not> is_syntax_character c) dev"

typedef device_name = "{dev. plain_device dev}"
  morphisms device_chars Device
  by (rule exI [of _ "[]"]) (simp add: plain_device_def)

definition row_here :: "device_name \<Rightarrow> string \<Rightarrow> string option" where
  "row_here dev inp =
     do { r1 \<leftarrow> lit (device_chars dev) (dropWhile is_space inp);
          r2 \<leftarrow> lit '':'' r1;
          (_, r3) \<leftarrow> many1 is_space r2;
          (_, r4) \<leftarrow> many1 is_digit r3;
          (_, r5) \<leftarrow> many1 is_space r4;
          (quality, r6) \<leftarrow> many1 is_digit r5;
          _ \<leftarrow> lit ''.'' r6;
          Some quality }"

text \<open>
  \<^verbatim>\<open>text.match(regex)\<close> returns the leftmost match. With the \<^verbatim>\<open>m\<close> flag, \<^verbatim>\<open>^\<close> holds
  at the start of the text and after every line terminator; \<open>bol\<close> says whether it
  holds at the current position.
\<close>

fun row_search :: "device_name \<Rightarrow> bool \<Rightarrow> string \<Rightarrow> string option" where
  "row_search dev bol [] = (if bol then row_here dev [] else None)"
| "row_search dev bol (c # cs) =
     (case (if bol then row_here dev (c # cs) else None) of
        Some quality \<Rightarrow> Some quality
      | None \<Rightarrow> row_search dev (is_line_terminator c) cs)"

text \<open>
  The argument \<open>file\<close> is the outcome of reading \<^verbatim>\<open>/proc/net/wireless\<close>: \<open>None\<close> when
  the read throws (the \<^verbatim>\<open>catch\<close> returns \<^verbatim>\<open>null\<close>). The result is
  \<^verbatim>\<open>Math.round((linkQuality / 70) * 100)\<close>, each operation on doubles.
\<close>

definition readWifiSignal :: "device_name \<Rightarrow> string option \<Rightarrow> Number option" where
  "readWifiSignal dev file =
     (case file of
        None \<Rightarrow> None
      | Some txt \<Rightarrow>
          (case row_search dev True txt of
             None \<Rightarrow> None
           | Some quality \<Rightarrow>
               if quality = [] then None
               else Some (Math_round (number_times (number_divide (parseInt quality) 70) 100))))"

section \<open>The line grammars as the specification words them\<close>

text \<open>
  The network monitor grammar of the specification:
  \<^verbatim>\<open>"<device>: connected"\<close>, \<^verbatim>\<open>"<device>: disconnected"\<close>,
  \<^verbatim>\<open>"<device>: using connection '<ssid>'"\<close> and
  \<^verbatim>\<open>"Connectivity is now '<full|limited|none>'"\<close>. The specification does not say
  what \<^verbatim>\<open><device>\<close> and \<^verbatim>\<open><ssid>\<close> range over; here they stand for any text.
\<close>

definition grammar_connected :: "string \<Rightarrow> bool" where
  "grammar_connected line \<longleftrightarrow> (\<exists>dev. line = dev @ '': connected'')"

definition grammar_disconnected :: "string \<Rightarrow> bool" where
  "grammar_disconnected line \<longleftrightarrow> (\<exists>dev. line = dev @ '': disconnected'')"

definition grammar_using :: "string \<Rightarrow> bool" where
  "grammar_using line \<longleftrightarrow>
     (\<exists>dev conn. line = dev @ '': using connection '' @ apos @ conn @ apos)"

definition grammar_connectivity :: "string \<Rightarrow> bool" where
  "grammar_connectivity line \<longleftrightarrow>
     line = ''Connectivity is now 'full'' @ apos
     \<or> line = ''Connectivity is now 'limited'' @ apos
     \<or> line = ''Connectivity is now 'none'' @ apos"

text \<open>
  The fourth production as the parser has it: any non-empty run of word characters
  between the apostrophes.
\<close>

definition connectivity_word_line :: "string \<Rightarrow> bool" where
  "connectivity_word_line line \<longleftrightarrow>
     (\<exists>level. level \<noteq> [] \<and> list_all is_word level
        \<and> line = ''Connectivity is now '' @ apos @ level @ apos)"

text \<open>
  The audio grammar of the specification:
  \<^verbatim>\<open>"Event '<new|change|remove>' on <sink|source|server|client|card|sink-input|source-output|module> #<index>"\<close>,
  with \<^verbatim>\<open><index>\<close> a decimal number.
\<close>

definition audio_actions :: "string list" where
  "audio_actions = [''new'', ''change'', ''remove'']"

definition audio_objects :: "string list" where
  "audio_objects =
     [''sink'', ''source'', ''server'', ''client'', ''card'', ''sink-input'', ''source-output'',
      ''module'']"

definition event_line :: "string \<Rightarrow> string \<Rightarrow> string \<Rightarrow> string" where
  "event_line act obj idx = ''Event '' @ apos @ act @ apos @ '' on '' @ obj @ '' #'' @ idx"

definition grammar_subscribe :: "string \<Rightarrow> bool" where
  "grammar_subscribe line \<longleftrightarrow>
     (\<exists>act obj idx. act \<in> set audio_actions \<and> obj \<in> set audio_objects
        \<and> idx \<noteq> [] \<and> list_all is_digit idx \<and> line = event_line act obj idx)"

text \<open>
  The lines the expression of \<^verbatim>\<open>parseSubscribeLine\<close> describes: the action any
  non-empty run of word characters, the object type any non-empty run of word
  characters and hyphens, the index a non-empty run of digits.
\<close>

definition subscribe_pattern :: "string \<Rightarrow> string \<Rightarrow> string \<Rightarrow> string \<Rightarrow> bool" where
  "subscribe_pattern act obj idx line \<longleftrightarrow>
     act \<noteq> [] \<and> list_all is_word act \<and> obj \<noteq> [] \<and> list_all is_word_or_hyphen obj
     \<and> idx \<noteq> [] \<and> list_all is_digit idx \<and> line = event_line act obj idx"

text \<open>
  The texts the row expression describes, read from a position where \<^verbatim>\<open>^\<close> holds:
  optional whitespace, the device name, a colon, whitespace, digits, whitespace, the
  digits of the link quality, a dot, and anything after it.
\<close>

definition wireless_row :: "device_name \<Rightarrow> string \<Rightarrow> string \<Rightarrow> bool" where
  "wireless_row dev quality inp \<longleftrightarrow>
     (\<exists>ws s1 d1 s2 rest.
        list_all is_space ws \<and> s1 \<noteq> [] \<and> list_all is_space s1 \<and> d1 \<noteq> [] \<and> list_all is_digit d1
        \<and> s2 \<noteq> [] \<and> list_all is_space s2 \<and> quality \<noteq> [] \<and> list_all is_digit quality
        \<and> inp = ws @ device_chars dev @ '':'' @ s1 @ d1 @ s2 @ quality @ ''.'' @ rest)"

text \<open>
  Position \<open>i\<close> of a text starts a line: it is the start of the text or follows a
  line terminator.
\<close>

definition line_start :: "string \<Rightarrow> nat \<Rightarrow> bool" where
  "line_start txt i \<longleftrightarrow> i = 0 \<or> is_line_terminator (txt ! (i - 1))"

text \<open>A text with two rows of the same device.\<close>

definition two_rows :: string where
  "two_rows = '' wlan0: 0000   32.  -78.'' @ [CHR 0x0A] @ '' wlan0: 0000   70.  -30.''"


section \<open>Monitors (createAudioMonitor, createNetworkMonitor)\<close>

text \<open>
  A monitor is a closure over a few variables, changed by callbacks that the
  JavaScript event loop runs one at a time, each to its next \<^verbatim>\<open>await\<close> or to its end.
  The model is a state record and one step function per monitor: a step is one such
  run, started by what the environment delivers (the caller invoking the returned
  stop function, a query settling, a chunk of the child's stdout, the child's exit,
  a timer firing). A step that the state does not wait for leaves the state as it
  is. Children are numbered in the order they are spawned, and each child with a
  captured stdout has one read loop. \<open>calls\<close> lists the invocations of the caller's
  callbacks, oldest first (a callback the caller did not supply is listed all the
  same). \<^verbatim>\<open>Bun.spawn\<close> is taken not to throw and the callbacks are taken not to throw.
\<close>

text \<open>
  The variables both monitors have: \<^verbatim>\<open>stopped\<close> and \<^verbatim>\<open>proc\<close> of the source; the
  number of children spawned so far, the children \<^verbatim>\<open>kill()\<close> was called on and the
  children whose \<^verbatim>\<open>onExit\<close> has run; the number of pending
  \<^verbatim>\<open>setTimeout(startMonitor, 1000)\<close>; whether \<^verbatim>\<open>init()\<close> is still at its \<^verbatim>\<open>await\<close>; the
  read loops, each with its \<^verbatim>\<open>buffer\<close> and the place where it is suspended.
\<close>

record 'w ReadLoop =
  buffer :: string
  waiting :: 'w

record ('w, 'c) Monitor =
  stopped :: bool
  proc :: "nat option"
  spawned :: nat
  killed :: "nat list"
  exited :: "nat list"
  timeouts :: nat
  init_waiting :: bool
  loops :: "nat \<rightharpoonup> 'w ReadLoop"
  calls :: "'c list"

text \<open>
  What the environment delivers, with \<open>'q\<close> the outcome of a query: the caller
  invokes the stop function; the query of \<^verbatim>\<open>init()\<close> settles (the flag says whether
  the child spawned next has \<^verbatim>\<open>proc.stdout instanceof ReadableStream\<close>); child \<open>k\<close>
  exits; a pending timeout fires (same flag); the read loop of child \<open>k\<close> gets a
  decoded chunk, the end of the stream, or a stream error; the query the read loop
  of child \<open>k\<close> awaits settles; the polling interval fires; the call of
  \<^verbatim>\<open>readWifiSignal\<close> started first settles (\<open>None\<close> for \<^verbatim>\<open>null\<close>).
\<close>

datatype 'q Step =
    Stop
  | InitSettled 'q bool
  | ChildExit nat
  | Timeout bool
  | Chunk nat string
  | StreamEnd nat
  | StreamError nat string
  | Settled nat 'q
  | Tick
  | SignalRead "Number option"

text \<open>
  \<^verbatim>\<open>buffer.split("\n")\<close>: the pieces between line feeds, always at least one.
\<close>

primrec split_newline :: "string \<Rightarrow> string list" where
  "split_newline [] = [[]]"
| "split_newline (c # cs) =
     (if c = CHR 0x0A then [] # split_newline cs
      else (case split_newline cs of l # ls \<Rightarrow> (c # l) # ls | [] \<Rightarrow> [[c]]))"

text \<open>
  The parts of the two monitors that read the same: the returned stop function up
  to \<^verbatim>\<open>proc?.kill()\<close>, \<^verbatim>\<open>onExit\<close>, and \<^verbatim>\<open>startMonitor\<close> (with the message of its error
  and the place where a new read loop waits).
\<close>

definition stop_kill :: "('w, 'c, 'z) Monitor_scheme \<Rightarrow> ('w, 'c, 'z) Monitor_scheme" where
  "stop_kill s =
     s\<lparr>stopped := True,
       killed := (case proc s of None \<Rightarrow> killed s | Some k \<Rightarrow> killed s @ [k])\<rparr>"

definition onExit :: "nat \<Rightarrow> ('w, 'c, 'z) Monitor_scheme \<Rightarrow> ('w, 'c, 'z) Monitor_scheme" where
  "onExit k s =
     (if k < spawned s \<and> k \<notin> set (exited s) then
        (if \<not> stopped s then s\<lparr>exited := exited s @ [k], timeouts := Suc (timeouts s)\<rparr>
         else s\<lparr>exited := exited s @ [k]\<rparr>)
      else s)"

definition startMonitor ::
  "'c \<Rightarrow> 'w \<Rightarrow> bool \<Rightarrow> ('w, 'c, 'z) Monitor_scheme \<Rightarrow> ('w, 'c, 'z) Monitor_scheme" where
  "startMonitor failed next_chunk piped s =
     (if stopped s then s
      else
        (let k = spawned s; s' = s\<lparr>proc := Some k, spawned := Suc k\<rparr> in
         if \<not> piped then s'\<lparr>calls := calls s' @ [failed]\<rparr>
         else s'\<lparr>loops := (loops s')(k \<mapsto> \<lparr>buffer = [], waiting = next_chunk\<rparr>)\<rparr>))"

definition loop_to ::
  "nat \<Rightarrow> 'w ReadLoop \<Rightarrow> 'w \<Rightarrow> ('w, 'c, 'z) Monitor_scheme \<Rightarrow> ('w, 'c, 'z) Monitor_scheme" where
  "loop_to k l w s = s\<lparr>loops := (loops s)(k \<mapsto> l\<lparr>waiting := w\<rparr>)\<rparr>"

definition call :: "'c \<Rightarrow> ('w, 'c, 'z) Monitor_scheme \<Rightarrow> ('w, 'c, 'z) Monitor_scheme" where
  "call c s = s\<lparr>calls := calls s @ [c]\<rparr>"

subsection \<open>The audio monitor\<close>

datatype AudioCallback =
    OnVolumeChange "nat \<times> bool"
  | OnDefaultSinkChange string
  | OnAudioError string

text \<open>
  Where a read loop is suspended: in \<^verbatim>\<open>for await\<close> for the next chunk, in
  \<^verbatim>\<open>await getDefaultSinkVolume()\<close> of the sink branch, in \<^verbatim>\<open>await getDefaultSink()\<close> or
  in \<^verbatim>\<open>await getDefaultSinkVolume()\<close> of the server branch (each with the lines of
  the current chunk that the \<^verbatim>\<open>for\<close> loop has not reached yet), or not at all
  because the loop has returned.
\<close>

datatype AudioWait =
    NextChunk
  | SinkVolume "string list"
  | ServerSink "string list"
  | ServerVolume "string list"
  | Returned

text \<open>
  The outcome of \<^verbatim>\<open>getDefaultSinkVolume()\<close> (volume and mute flag) or of
  \<^verbatim>\<open>getDefaultSink()\<close> (the sink name); \<open>Inl\<close> is the error thrown.
\<close>

datatype AudioAnswer =
    Volume "string + nat \<times> bool"
  | SinkName "string + string"

type_synonym AudioMonitor = "(AudioWait, AudioCallback) Monitor"

text \<open>The state when \<^verbatim>\<open>createAudioMonitor\<close> returns: \<^verbatim>\<open>init()\<close> is at its \<^verbatim>\<open>await\<close>.\<close>

definition audio_created :: AudioMonitor where
  "audio_created =
     \<lparr>stopped = False, proc = None, spawned = 0, killed = [], exited = [], timeouts = 0,
      init_waiting = True, loops = Map.empty, calls = []\<rparr>"

text \<open>
  The \<^verbatim>\<open>for (const line of lines)\<close> loop of the audio monitor, from the given lines to
  its next \<^verbatim>\<open>await\<close> or to its end. It reads no variable of the monitor.
\<close>

fun audio_lines :: "string list \<Rightarrow> AudioWait" where
  "audio_lines [] = NextChunk"
| "audio_lines (l # ls) =
     (case parseSubscribeLine l of
        None \<Rightarrow> audio_lines ls
      | Some ev \<Rightarrow>
          if action ev = ''change'' then
            (if object ev = ''sink'' then SinkVolume ls
             else if object ev = ''server'' then ServerSink ls
             else audio_lines ls)
          else audio_lines ls)"

definition volume_settled :: "string + nat \<times> bool \<Rightarrow> AudioCallback" where
  "volume_settled r = (case r of Inl err \<Rightarrow> OnAudioError err | Inr status \<Rightarrow> OnVolumeChange status)"

fun audio_step :: "AudioAnswer Step \<Rightarrow> AudioMonitor \<Rightarrow> AudioMonitor" where
  "audio_step Stop s = stop_kill s"
| "audio_step (InitSettled (Volume r) piped) s =
     (if init_waiting s then
        startMonitor (OnAudioError ''Failed to capture pactl stdout'') NextChunk piped
          (call (volume_settled r) (s\<lparr>init_waiting := False\<rparr>))
      else s)"
| "audio_step (ChildExit k) s = onExit k s"
| "audio_step (Timeout piped) s =
     (if 0 < timeouts s then
        startMonitor (OnAudioError ''Failed to capture pactl stdout'') NextChunk piped
          (s\<lparr>timeouts := timeouts s - 1\<rparr>)
      else s)"
| "audio_step (Chunk k chunk) s =
     (case loops s k of
        Some l \<Rightarrow>
          (case waiting l of
             NextChunk \<Rightarrow>
               if stopped s then loop_to k l Returned s
               else
                 (let ls = split_newline (buffer l @ chunk) in
                  loop_to k (l\<lparr>buffer := last ls\<rparr>) (audio_lines (butlast ls)) s)
           | _ \<Rightarrow> s)
      | None \<Rightarrow> s)"
| "audio_step (StreamEnd k) s =
     (case loops s k of
        Some l \<Rightarrow> (case waiting l of NextChunk \<Rightarrow> loop_to k l Returned s | _ \<Rightarrow> s)
      | None \<Rightarrow> s)"
| "audio_step (StreamError k err) s =
     (case loops s k of
        Some l \<Rightarrow>
          (case waiting l of
             NextChunk \<Rightarrow>
               (if \<not> stopped s then call (OnAudioError err) (loop_to k l Returned s)
                else loop_to k l Returned s)
           | _ \<Rightarrow> s)
      | None \<Rightarrow> s)"
| "audio_step (Settled k (Volume r)) s =
     (case loops s k of
        Some l \<Rightarrow>
          (case waiting l of
             SinkVolume ls \<Rightarrow> loop_to k l (audio_lines ls) (call (volume_settled r) s)
           | ServerVolume ls \<Rightarrow> loop_to k l (audio_lines ls) (call (volume_settled r) s)
           | _ \<Rightarrow> s)
      | None \<Rightarrow> s)"
| "audio_step (Settled k (SinkName r)) s =
     (case loops s k of
        Some l \<Rightarrow>
          (case waiting l of
             ServerSink ls \<Rightarrow>
               (case r of
                  Inl err \<Rightarrow> loop_to k l (audio_lines ls) (call (OnAudioError err) s)
                | Inr sinkName \<Rightarrow> loop_to k l (ServerVolume ls) (call (OnDefaultSinkChange sinkName) s))
           | _ \<Rightarrow> s)
      | None \<Rightarrow> s)"
| "audio_step _ s = s"

text \<open>A run: the steps in the order the event loop takes them.\<close>

definition audio_run :: "AudioAnswer Step list \<Rightarrow> AudioMonitor \<Rightarrow> AudioMonitor" where
  "audio_run steps s = foldl (\<lambda>s step. audio_step step s) s steps"

subsection \<open>The network monitor\<close>

text \<open>
  Of a \<^verbatim>\<open>NetworkStatus\<close> the monitor reads \<^verbatim>\<open>device\<close> only; the model keeps \<^verbatim>\<open>name\<close>
  and \<^verbatim>\<open>device\<close>, in this order.
\<close>

datatype NetworkStatus = NetworkStatus string string

fun status_device :: "NetworkStatus \<Rightarrow> string" where
  "status_device (NetworkStatus nm dev) = dev"

datatype NetworkCallback =
    OnConnect NetworkStatus
  | OnDisconnect
  | OnSignalChange Number
  | OnNetworkError string

text \<open>
  Where a read loop is suspended: in \<^verbatim>\<open>for await\<close>, in
  \<^verbatim>\<open>await getActiveConnection()\<close> of the connected branch (with the lines not reached
  yet), or not at all.
\<close>

datatype NetworkWait =
    NetNextChunk
  | ActiveConnection "string list"
  | NetReturned

text \<open>
  The further variables of the network monitor: \<^verbatim>\<open>currentDevice\<close>; whether
  \<^verbatim>\<open>signalInterval\<close> is set and whether \<^verbatim>\<open>clearInterval\<close> was called on it; the devices
  of the \<^verbatim>\<open>readWifiSignal\<close> calls that interval callbacks are awaiting.
\<close>

record NetworkMonitor = "(NetworkWait, NetworkCallback) Monitor" +
  currentDevice :: "string option"
  signalInterval :: bool
  intervalCleared :: bool
  reading :: "string list"

definition network_created :: NetworkMonitor where
  "network_created =
     \<lparr>stopped = False, proc = None, spawned = 0, killed = [], exited = [], timeouts = 0,
      init_waiting = True, loops = Map.empty, calls = [],
      currentDevice = None, signalInterval = False, intervalCleared = False, reading = []\<rparr>"

text \<open>
  The \<^verbatim>\<open>for (const line of lines)\<close> loop of the network monitor for the read loop \<open>l\<close>
  of child \<open>k\<close>, from the given lines to its next \<^verbatim>\<open>await\<close> or to its end. The
  device of a \<^verbatim>\<open>connected\<close> event is a non-empty string, hence truthy.
\<close>

fun network_lines ::
  "nat \<Rightarrow> NetworkWait ReadLoop \<Rightarrow> string list \<Rightarrow> NetworkMonitor \<Rightarrow> NetworkMonitor" where
  "network_lines k l [] s = loop_to k l NetNextChunk s"
| "network_lines k l (line # ls) s =
     (case parseMonitorLine line of
        None \<Rightarrow> network_lines k l ls s
      | Some ev \<Rightarrow>
          if type ev = Connected \<and> device ev \<noteq> None \<and> device ev \<noteq> Some [] then
            loop_to k l (ActiveConnection ls) (s\<lparr>currentDevice := device ev\<rparr>)
          else if type ev = Disconnected then
            network_lines k l ls (call OnDisconnect (s\<lparr>currentDevice := None\<rparr>))
          else network_lines k l ls s)"

text \<open>
  What follows \<^verbatim>\<open>await getActiveConnection()\<close> in the read loop: \<^verbatim>\<open>onConnect\<close> for a
  status, nothing for \<^verbatim>\<open>null\<close>, \<^verbatim>\<open>onError\<close> for an error.
\<close>

definition connection_settled ::
  "string + NetworkStatus option \<Rightarrow> NetworkMonitor \<Rightarrow> NetworkMonitor" where
  "connection_settled r s =
     (case r of
        Inl err \<Rightarrow> call (OnNetworkError err) s
      | Inr None \<Rightarrow> s
      | Inr (Some status) \<Rightarrow> call (OnConnect status) s)"

fun network_step ::
  "(string + NetworkStatus option) Step \<Rightarrow> NetworkMonitor \<Rightarrow> NetworkMonitor" where
  "network_step Stop s =
     (let s' = stop_kill s in
      if signalInterval s' then s'\<lparr>intervalCleared := True\<rparr> else s')"
| "network_step (InitSettled r piped) s =
     (if init_waiting s then
        (let s1 = (case r of
                     Inl err \<Rightarrow> call (OnNetworkError err) s
                   | Inr None \<Rightarrow> s
                   | Inr (Some status) \<Rightarrow>
                       call (OnConnect status) (s\<lparr>currentDevice := Some (status_device status)\<rparr>));
             s2 = startMonitor (OnNetworkError ''Failed to capture nmcli stdout'') NetNextChunk
                    piped (s1\<lparr>init_waiting := False\<rparr>)
         in s2\<lparr>signalInterval := True\<rparr>)
      else s)"
| "network_step (ChildExit k) s = onExit k s"
| "network_step (Timeout piped) s =
     (if 0 < timeouts s then
        startMonitor (OnNetworkError ''Failed to capture nmcli stdout'') NetNextChunk piped
          (s\<lparr>timeouts := timeouts s - 1\<rparr>)
      else s)"
| "network_step (Chunk k chunk) s =
     (case loops s k of
        Some l \<Rightarrow>
          (case waiting l of
             NetNextChunk \<Rightarrow>
               if stopped s then loop_to k l NetReturned s
               else
                 (let ls = split_newline (buffer l @ chunk) in
                  network_lines k (l\<lparr>buffer := last ls\<rparr>) (butlast ls) s)
           | _ \<Rightarrow> s)
      | None \<Rightarrow> s)"
| "network_step (StreamEnd k) s =
     (case loops s k of
        Some l \<Rightarrow> (case waiting l of NetNextChunk \<Rightarrow> loop_to k l NetReturned s | _ \<Rightarrow> s)
      | None \<Rightarrow> s)"
| "network_step (StreamError k err) s =
     (case loops s k of
        Some l \<Rightarrow>
          (case waiting l of
             NetNextChunk \<Rightarrow>
               (if \<not> stopped s then call (OnNetworkError err) (loop_to k l NetReturned s)
                else loop_to k l NetReturned s)
           | _ \<Rightarrow> s)
      | None \<Rightarrow> s)"
| "network_step (Settled k r) s =
     (case loops s k of
        Some l \<Rightarrow>
          (case waiting l of
             ActiveConnection ls \<Rightarrow> network_lines k l ls (connection_settled r s)
           | _ \<Rightarrow> s)
      | None \<Rightarrow> s)"
| "network_step Tick s =
     (if signalInterval s \<and> \<not> intervalCleared s then
        (case currentDevice s of
           None \<Rightarrow> s
         | Some dev \<Rightarrow> if stopped s \<or> dev = [] then s else s\<lparr>reading := reading s @ [dev]\<rparr>)
      else s)"
| "network_step (SignalRead r) s =
     (case reading s of
        [] \<Rightarrow> s
      | dev # rest \<Rightarrow>
          (case r of
             None \<Rightarrow> s\<lparr>reading := rest\<rparr>
           | Some signal \<Rightarrow> call (OnSignalChange signal) (s\<lparr>reading := rest\<rparr>)))"

definition network_run ::
  "(string + NetworkStatus option) Step list \<Rightarrow> NetworkMonitor \<Rightarrow> NetworkMonitor" where
  "network_run steps s = foldl (\<lambda>s step. network_step step s) s steps"

text \<open>
  Two monitors in the middle of a chunk. The audio monitor has started, and its read
  loop has received the two lines \<^verbatim>\<open>Event 'change' on sink #56\<close> and
  \<^verbatim>\<open>Event 'change' on server #0\<close> in one chunk: it is awaiting the volume query of
  the first line. The network monitor has started with no active connection, and
  its read loop has received \<^verbatim>\<open>wlan0: connected\<close> and \<^verbatim>\<open>wlan0: disconnected\<close> in one
  chunk: it is awaiting the connection query of the first line.
\<close>

definition audio_in_chunk :: AudioMonitor where
  "audio_in_chunk =
     audio_run
       [InitSettled (Volume (Inr (40, False))) True,
        Chunk 0 (''Event 'change' on sink #56'' @ [CHR 0x0A] @
                 ''Event 'change' on server #0'' @ [CHR 0x0A])]
       audio_created"

definition network_in_chunk :: NetworkMonitor where
  "network_in_chunk =
     network_run
       [InitSettled (Inr None) True,
        Chunk 0 (''wlan0: connected'' @ [CHR 0x0A] @ ''wlan0: disconnected'' @ [CHR 0x0A])]
       network_created"

text \<open>
  A monitor with nothing in flight: \<^verbatim>\<open>init()\<close> is past its \<^verbatim>\<open>await\<close>, every read loop
  is waiting for a chunk or has returned, and (network monitor) no interval callback
  is awaiting \<^verbatim>\<open>readWifiSignal\<close>.
\<close>

definition audio_idle :: "AudioMonitor \<Rightarrow> bool" where
  "audio_idle s \<longleftrightarrow>
     \<not> init_waiting s
     \<and> (\<forall>k l. loops s k = Some l \<longrightarrow> waiting l = NextChunk \<or> waiting l = Returned)"

definition network_idle :: "NetworkMonitor \<Rightarrow> bool" where
  "network_idle s \<longleftrightarrow>
     \<not> init_waiting s \<and> reading s = []
     \<and> (\<forall>k l. loops s k = Some l \<longrightarrow> waiting l = NetNextChunk \<or> waiting l = NetReturned)"

section \<open>Properties of the supervisor\<close>

lemma set_daemon_known:
  "daemons m nm = Some d \<Longrightarrow>
   set_daemon nm cmd m =
     m\<lparr>daemons := (daemons m)(nm \<mapsto> \<lparr>name = nm, command = cmd, state = state d, fiber = None\<rparr>)\<rparr>"
  by (simp add: set_daemon_def)

lemma set_daemon_known_cells:
  "daemons m nm = Some d \<Longrightarrow> cells (set_daemon nm cmd m) = cells m"
  by (simp add: set_daemon_known)

lemma set_daemon_known_tasks:
  "daemons m nm = Some d \<Longrightarrow>
   forked (set_daemon nm cmd m) = forked m \<and> interrupted (set_daemon nm cmd m) = interrupted m"
  by (simp add: set_daemon_known)

lemma set_daemon_others:
  "nm' \<noteq> nm \<Longrightarrow> daemons (set_daemon nm cmd m) nm' = daemons m nm'"
  by (simp add: set_daemon_def Let_def split: option.splits)



lemma start_running:
  "daemons m nm = Some d \<Longrightarrow> cells m (state d) = Running \<Longrightarrow> start nm m = (Inr (), m)"
  by (simp add: start_def)

lemma stop_without_fiber:
  "daemons m nm = Some d \<Longrightarrow> fiber d = None \<Longrightarrow> stop nm m = (Inr (), m)"
  by (simp add: stop_def)

lemma spawnDaemon_fails: "spawnDaemon command_start d \<noteq> Inr x"
  by (simp add: spawnDaemon_def split: sum.splits)


text \<open>
  Every task forked into the scope runs \<^verbatim>\<open>spawnDaemon\<close> on the daemon it was forked
  with, so it never succeeds, whichever \<^verbatim>\<open>start\<close> forked it.
\<close>

lemma forked_task_fails:
  "f < length (forked m) \<Longrightarrow>
   \<exists>r. fiber_exit command_start m f = Some r \<and> (\<forall>x. r \<noteq> Inr x)"
  by (simp add: fiber_exit_def spawnDaemon_fails)

subsection \<open>The registry after set, start, set\<close>

text \<open>
  C1. On a registered name \<^verbatim>\<open>set\<close> is meant to replace the command and keep both the
  state cell and the task handle. Evaluated on the registry obtained by
  \<^verbatim>\<open>set({name: "d", command: ["sleep", "10"]})\<close>, \<^verbatim>\<open>start("d")\<close> and
  \<^verbatim>\<open>set({name: "d", command: ["sleep", "20"]})\<close>: before the second \<^verbatim>\<open>set\<close> the entry
  holds fiber 0; after it the command is the new one and the state cell is the same
  cell, still reading \<^verbatim>\<open>"running"\<close>, but the entry has no fiber, although the task
  forked by \<^verbatim>\<open>start\<close> is still in the scope and was never interrupted; a following
  \<^verbatim>\<open>stop("d")\<close> finds no fiber and does nothing.
\<close>

theorem set_known_drops_fiber:
  "let m1 = set_daemon ''d'' [''sleep'', ''10''] empty_manager;
       m2 = snd (start ''d'' m1);
       m3 = set_daemon ''d'' [''sleep'', ''20''] m2
   in daemons m2 ''d'' =
        Some \<lparr>name = ''d'', command = [''sleep'', ''10''], state = 0, fiber = Some 0\<rparr>
    \<and> daemons m3 ''d'' =
        Some \<lparr>name = ''d'', command = [''sleep'', ''20''], state = 0, fiber = None\<rparr>
    \<and> cells m3 0 = Running
    \<and> length (forked m3) = 1
    \<and> interrupted m3 = []
    \<and> stop ''d'' m3 = (Inr (), m3)"
  by (simp add: set_daemon_def start_def stop_def empty_manager_def Let_def)

subsection \<open>Unknown names\<close>

text \<open>
  C3. For a name that is not a key of the registry, \<^verbatim>\<open>start\<close> and \<^verbatim>\<open>stop\<close> both fail
  with a \<^verbatim>\<open>DaemonNotFoundError\<close> carrying that name, and the supervisor's state (the
  registry, the state cells, the forked and the interrupted tasks) is the one before
  the call.
\<close>

theorem start_stop_unknown:
  "nm \<notin> dom (daemons m) \<Longrightarrow>
   start nm m = (Inl (DaemonNotFoundError nm), m) \<and> stop nm m = (Inl (DaemonNotFoundError nm), m)"
  by (auto simp: start_def stop_def)

theorem start_stop_unknown_witness:
  "''b'' \<notin> dom (daemons (set_daemon ''a'' [''sleep'', ''10''] empty_manager))
   \<and> start ''b'' (set_daemon ''a'' [''sleep'', ''10''] empty_manager) =
       (Inl (DaemonNotFoundError ''b''), set_daemon ''a'' [''sleep'', ''10''] empty_manager)
   \<and> stop ''b'' (set_daemon ''a'' [''sleep'', ''10''] empty_manager) =
       (Inl (DaemonNotFoundError ''b''), set_daemon ''a'' [''sleep'', ''10''] empty_manager)"
proof -
  have h: "''b'' \<notin> dom (daemons (set_daemon ''a'' [''sleep'', ''10''] empty_manager))"
    by (simp add: set_daemon_def empty_manager_def Let_def)
  from start_stop_unknown [OF h] h show ?thesis by simp
qed

subsection \<open>Starting a running daemon\<close>

text \<open>
  For a registered daemon whose state cell reads \<^verbatim>\<open>"running"\<close>, \<^verbatim>\<open>start\<close> succeeds and
  returns the supervisor's state as it was: no task is forked (child processes are
  spawned by forked tasks only), and the entry is the one before the call. For every
  registered daemon a \<^verbatim>\<open>start\<close> right after a \<^verbatim>\<open>start\<close> changes nothing.
\<close>

lemma start_running_noop:
  "daemons m nm = Some d \<Longrightarrow>
   (cells m (state d) = Running \<longrightarrow>
      start nm m = (Inr (), m)
      \<and> forked (snd (start nm m)) = forked m
      \<and> daemons (snd (start nm m)) nm = Some d)
   \<and> start nm (snd (start nm m)) = (Inr (), snd (start nm m))
   \<and> (\<exists>d'. daemons (snd (start nm m)) nm = Some d'
            \<and> daemons (snd (start nm (snd (start nm m)))) nm = Some d')"
  by (simp add: start_def Let_def)

text \<open>
  C4. On a registered daemon whose state reads \<^verbatim>\<open>"running"\<close>, \<^verbatim>\<open>start\<close> is meant to
  succeed, to fork nothing and to leave on the entry the task handle that the earlier
  \<^verbatim>\<open>start\<close> recorded. Evaluated on \<^verbatim>\<open>set\<close>, \<^verbatim>\<open>start\<close>, \<^verbatim>\<open>set\<close>, \<^verbatim>\<open>start\<close> of one name: the
  first \<^verbatim>\<open>start\<close> records the handle 0 and the state reads \<^verbatim>\<open>"running"\<close>; the second
  \<^verbatim>\<open>set\<close> stores an entry without the handle and the state still reads \<^verbatim>\<open>"running"\<close>;
  the second \<^verbatim>\<open>start\<close> succeeds, forks nothing and changes nothing, so the entry it
  leaves has no handle, while the task of handle 0 is still the only one forked.
\<close>

theorem start_running_after_set:
  "let m1 = snd (start ''d'' (set_daemon ''d'' [''sleep'', ''10''] empty_manager));
       m2 = set_daemon ''d'' [''sleep'', ''20''] m1
   in map_option fiber (daemons m1 ''d'') = Some (Some 0)
      \<and> map_option (\<lambda>d. cells m2 (state d)) (daemons m2 ''d'') = Some Running
      \<and> start ''d'' m2 = (Inr (), m2)
      \<and> length (forked (snd (start ''d'' m2))) = 1
      \<and> map_option fiber (daemons (snd (start ''d'' m2)) ''d'') = Some None"
  by (simp add: set_daemon_def start_def empty_manager_def Let_def)

subsection \<open>Stopping a daemon that has no fiber\<close>

text \<open>
  C5. For a registered daemon whose entry has no fiber, \<^verbatim>\<open>stop\<close> succeeds and returns
  the supervisor's state as it was: the entry, its state cell and every other cell
  are unchanged and no task is interrupted.
\<close>

theorem stop_no_fiber_noop:
  "daemons m nm = Some d \<Longrightarrow> fiber d = None \<Longrightarrow>
   stop nm m = (Inr (), m)
   \<and> cells (snd (stop nm m)) (state d) = cells m (state d)
   \<and> daemons (snd (stop nm m)) nm = Some d"
  by (simp add: stop_def)

theorem stop_no_fiber_noop_witness:
  "let m = set_daemon ''d'' [''sleep'', ''10''] empty_manager;
       d = \<lparr>name = ''d'', command = [''sleep'', ''10''], state = 0, fiber = None\<rparr>
   in daemons m ''d'' = Some d \<and> fiber d = None \<and> stop ''d'' m = (Inr (), m)
      \<and> cells (snd (stop ''d'' m)) 0 = Stopped"
proof -
  define m where "m = set_daemon ''d'' [''sleep'', ''10''] empty_manager"
  define d where "d = \<lparr>name = ''d'', command = [''sleep'', ''10''], state = 0, fiber = None\<rparr>"
  have h1: "daemons m ''d'' = Some d"
    by (simp add: m_def d_def set_daemon_def empty_manager_def Let_def)
  have h2: "fiber d = None" by (simp add: d_def)
  have h3: "cells m 0 = Stopped"
    by (simp add: m_def set_daemon_def empty_manager_def Let_def)
  from stop_no_fiber_noop [OF h1 h2] h1 h2 h3 show ?thesis
    unfolding Let_def m_def [symmetric] d_def [symmetric] by (simp add: d_def)
qed

subsection \<open>The supervising task always fails\<close>




section \<open>Properties of the numbers\<close>

text \<open>
  \<open>ilog2\<close> finds the binary exponent, rounding to a double is exact on the integers
  below \<open>2^53\<close>, and in the normal range its relative error is at most \<open>2^-53\<close>.
\<close>

lemma bits_pos: "0 < n \<Longrightarrow> 1 \<le> bits n"
proof (induction n rule: bits.induct)
  case (1 n)
  show ?case
  proof (cases "0 < n div 2")
    case True
    with 1 have "1 \<le> bits (n div 2)" by simp
    with 1(2) show ?thesis by (subst bits.simps) simp
  next
    case False
    then have "bits (n div 2) = 0" by (subst bits.simps) simp
    with 1(2) show ?thesis by (subst bits.simps) simp
  qed
qed

lemma bits_bounds: "0 < n \<Longrightarrow> 2 ^ nat (bits n - 1) \<le> n \<and> n < 2 ^ nat (bits n)"
proof (induction n rule: bits.induct)
  case (1 n)
  show ?case
  proof (cases "0 < n div 2")
    case True
    with 1 have ih: "2 ^ nat (bits (n div 2) - 1) \<le> n div 2" "n div 2 < 2 ^ nat (bits (n div 2))"
      by simp_all
    from True have p: "1 \<le> bits (n div 2)" by (rule bits_pos)
    from 1(2) have b: "bits n = 1 + bits (n div 2)" by (subst bits.simps) simp
    have n1: "nat (bits n - 1) = Suc (nat (bits (n div 2) - 1))" using b p by simp
    have n2: "nat (bits n) = Suc (nat (bits (n div 2)))" using b p by simp
    have d: "2 * (n div 2) \<le> n" "n < 2 * (n div 2) + 2" by presburger+
    from ih d have "2 * 2 ^ nat (bits (n div 2) - 1) \<le> n" "n < 2 * 2 ^ nat (bits (n div 2))"
      by linarith+
    then show ?thesis unfolding n1 n2 by simp
  next
    case False
    with 1(2) have n: "n = 1" by simp
    have "bits (1::int) = 1" by (simp add: bits.simps)
    with n show ?thesis by simp
  qed
qed

lemma half_even_error: "\<bar>of_int (half_even z) - z\<bar> \<le> 1 / 2"
proof -
  have "of_int \<lfloor>z\<rfloor> \<le> z" "z < of_int \<lfloor>z\<rfloor> + 1" by linarith+
  then show ?thesis by (auto simp: half_even_def Let_def)
qed

lemma half_even_of_int: "half_even (of_int i) = i"
  by (simp add: half_even_def)

lemma power_int_2_pos: "0 < power_int (2::rat) k"
  by simp

lemma ilog2_bounds:
  assumes "0 < x"
  shows "power_int 2 (ilog2 x) \<le> x \<and> x < power_int 2 (ilog2 x + 1)"
proof -
  obtain a b where q: "quotient_of x = (a, b)" by (cases "quotient_of x")
  then have b: "0 < b" and x: "x = of_int a / of_int b"
    by (simp_all add: quotient_of_denom_pos quotient_of_div)
  from assms x b have a: "0 < a" by (simp add: zero_less_divide_iff)
  define A where "A = bits a"
  define B where "B = bits b"
  from bits_bounds [OF a] bits_pos [OF a]
  have a1: "(2::rat) ^ nat (A - 1) \<le> of_int a" and a2: "of_int a < (2::rat) ^ nat A" and A: "1 \<le> A"
    unfolding A_def by (metis of_int_le_iff of_int_numeral of_int_power, metis of_int_less_iff of_int_numeral of_int_power, simp)
  from bits_bounds [OF b] bits_pos [OF b]
  have b1: "(2::rat) ^ nat (B - 1) \<le> of_int b" and b2: "of_int b < (2::rat) ^ nat B" and B: "1 \<le> B"
    unfolding B_def by (metis of_int_le_iff of_int_numeral of_int_power, metis of_int_less_iff of_int_numeral of_int_power, simp)
  have pa1: "power_int (2::rat) (A - 1) \<le> of_int a" using a1 A by (simp add: power_int_def)
  have pa2: "of_int a < power_int (2::rat) A" using a2 A by (simp add: power_int_def)
  have pb1: "power_int (2::rat) (B - 1) \<le> of_int b" using b1 B by (simp add: power_int_def)
  have pb2: "of_int b < power_int (2::rat) B" using b2 B by (simp add: power_int_def)
  have bpos: "(0::rat) < of_int b" using b by simp
  have upper: "x < power_int 2 (A - B + 1)"
  proof -
    have "x < power_int 2 A / of_int b" unfolding x using pa2 bpos
      by (simp add: divide_strict_right_mono)
    also have "\<dots> \<le> power_int 2 A / power_int 2 (B - 1)"
      using pb1 bpos by (intro divide_left_mono) (simp_all add: mult_pos_pos)
    also have "\<dots> = power_int 2 (A - B + 1)"
      by (simp add: power_int_diff [symmetric] algebra_simps)
    finally show ?thesis .
  qed
  have lower: "power_int 2 (A - B - 1) < x"
  proof -
    have "power_int (2::rat) (A - B - 1) = power_int 2 (A - 1) / power_int 2 B"
      by (simp add: power_int_diff [symmetric] algebra_simps)
    also have "\<dots> < power_int 2 (A - 1) / of_int b"
      using pb2 bpos by (intro divide_strict_left_mono) (simp_all add: mult_pos_pos)
    also have "\<dots> \<le> x" unfolding x using pa1 bpos by (simp add: divide_right_mono)
    finally show ?thesis .
  qed
  show ?thesis
  proof (cases "power_int 2 (A - B) \<le> x")
    case True
    then have "ilog2 x = A - B" by (simp add: ilog2_def q A_def B_def)
    with True upper show ?thesis by simp
  next
    case False
    then have "ilog2 x = A - B - 1" by (simp add: ilog2_def q A_def B_def)
    with False lower show ?thesis by simp
  qed
qed

lemma ilog2_ge:
  assumes "0 < x" "power_int 2 k \<le> x"
  shows "k \<le> ilog2 x"
proof (rule ccontr)
  assume "\<not> k \<le> ilog2 x"
  then have "ilog2 x + 1 \<le> k" by simp
  then have "power_int (2::rat) (ilog2 x + 1) \<le> power_int 2 k"
    by (intro power_int_increasing) simp_all
  with ilog2_bounds [OF assms(1)] assms(2) show False by simp
qed

lemma ilog2_less:
  assumes "0 < x" "x < power_int 2 k"
  shows "ilog2 x < k"
proof (rule ccontr)
  assume "\<not> ilog2 x < k"
  then have "k \<le> ilog2 x" by simp
  then have "power_int (2::rat) k \<le> power_int 2 (ilog2 x)"
    by (intro power_int_increasing) simp_all
  with ilog2_bounds [OF assms(1)] assms(2) show False by simp
qed

text \<open>Error bound of rounding in the normal range.\<close>

lemma to_double_error:
  assumes "power_int 2 (- 1022) \<le> x" "x < 2 ^ 1023"
  shows "\<exists>y. to_double x = Finite y \<and> \<bar>y - x\<bar> \<le> x / 2 ^ 53"
proof -
  have x0: "0 < x" using assms(1) power_int_2_pos [of "- 1022"] by linarith
  define e where "e = ilog2 x"
  have e1: "- 1022 \<le> e" unfolding e_def using x0 assms(1) by (rule ilog2_ge)
  define u :: rat where "u = power_int 2 (e - 52)"
  have u0: "0 < u" by (simp add: u_def)
  have mx: "max (ilog2 x - 52) (- 1074) = e - 52" using e1 by (simp add: e_def)
  define m where "m = half_even (x / u)"
  define y where "y = of_int m * u"
  have "\<bar>of_int m - x / u\<bar> \<le> 1 / 2" unfolding m_def by (rule half_even_error)
  then have "\<bar>of_int m - x / u\<bar> * u \<le> 1 / 2 * u" using u0 by (intro mult_right_mono) simp_all
  moreover have "\<bar>of_int m - x / u\<bar> * u = \<bar>y - x\<bar>"
    using u0 by (simp add: y_def abs_mult [symmetric] left_diff_distrib abs_mult_pos)
  ultimately have err: "\<bar>y - x\<bar> \<le> u / 2" by simp
  have "u / 2 = power_int 2 e / 2 ^ 53"
    by (simp add: u_def power_int_diff)
  also have "\<dots> \<le> x / 2 ^ 53"
    using ilog2_bounds [OF x0] by (simp add: e_def divide_right_mono)
  finally have u2: "u / 2 \<le> x / 2 ^ 53" .
  with err have bound: "\<bar>y - x\<bar> \<le> x / 2 ^ 53" by simp
  have "y \<le> x + x / 2 ^ 53" using bound by linarith
  also have "\<dots> < 2 ^ 1023 + 2 ^ 1023" 
  proof -
    have "x / 2 ^ 53 \<le> x" using x0 by (simp add: divide_le_eq)
    with assms(2) show ?thesis by linarith
  qed
  also have "\<dots> = (2::rat) ^ 1024" by simp
  finally have fin: "\<not> 2 ^ 1024 \<le> y" by simp
  have "to_double x = Finite y"
    using x0 fin unfolding to_double_def mx u_def [symmetric] Let_def m_def [symmetric]
      y_def [symmetric]
    by simp
  with bound show ?thesis by blast
qed

lemma to_double_of_int:
  assumes "0 \<le> n" "n < 2 ^ 53"
  shows "to_double (of_int n) = Finite (of_int n)"
proof (cases "n = 0")
  case True
  then show ?thesis by (simp add: to_double_def)
next
  case False
  define x :: rat where "x = of_int n"
  from False assms(1) have n1: "1 \<le> n" by simp
  then have x1: "1 \<le> x" and x0: "0 < x" and xn: "x \<noteq> 0" by (simp_all add: x_def)
  define e where "e = ilog2 x"
  have "power_int (2::rat) 0 \<le> x" using x1 by simp
  with x0 have e0: "0 \<le> e" unfolding e_def by (rule ilog2_ge)
  have "x < power_int 2 53" using assms(2) unfolding x_def
    by (metis of_int_less_iff of_int_numeral of_int_power power_int_numeral)
  with x0 have e53: "e < 53" unfolding e_def by (rule ilog2_less)
  define k where "k = nat (52 - e)"
  have mx: "max (ilog2 x - 52) (- 1074) = e - 52" using e0 by (simp add: e_def)
  have u: "power_int (2::rat) (e - 52) = 1 / 2 ^ k"
  proof -
    have "e - 52 = - int k" using e53 by (simp add: k_def)
    then show ?thesis by (simp add: power_int_minus divide_simps)
  qed
  have xu: "x / (1 / 2 ^ k) = of_int (n * 2 ^ k)" by (simp add: x_def)
  have y: "of_int (half_even (x / (1 / 2 ^ k))) * (1 / 2 ^ k) = x"
    unfolding xu half_even_of_int by (simp add: x_def)
  have "x < 2 ^ 53" using assms(2) unfolding x_def
    by (metis of_int_less_iff of_int_numeral of_int_power)
  also have "\<dots> \<le> (2::rat) ^ 1024" by (intro power_increasing) simp_all
  finally have fin: "\<not> 2 ^ 1024 \<le> x" by simp
  have "to_double x = Finite x"
    using xn fin unfolding to_double_def mx u Let_def y by simp
  then show ?thesis by (simp add: x_def)
qed

lemma parseInt_exact:
  "0 \<le> decimal ds \<Longrightarrow> decimal ds < 2 ^ 53 \<Longrightarrow> parseInt ds = Finite (of_int (decimal ds))"
  by (simp add: parseInt_def to_double_of_int)

lemma decimal_nonneg: "list_all is_digit ds \<Longrightarrow> 0 \<le> decimal ds"
proof -
  have "list_all is_digit ds \<Longrightarrow> 0 \<le> a \<Longrightarrow>
        0 \<le> foldl (\<lambda>acc c. 10 * acc + ((of_char c :: int) - 48)) a ds" for a
  proof (induction ds arbitrary: a)
    case Nil
    then show ?case by simp
  next
    case (Cons c cs)
    from Cons.prems(1) have "48 \<le> (of_char c :: nat)" by (simp add: is_digit_def)
    then have "48 \<le> (of_char c :: int)" by (metis of_char_of of_nat_le_iff of_nat_numeral of_nat_of_char)
    with Cons.prems show ?case by (auto intro!: Cons.IH)
  qed
  then show "list_all is_digit ds \<Longrightarrow> 0 \<le> decimal ds" unfolding decimal_def by simp
qed

lemma parseInt_digits:
  "list_all is_digit ds \<Longrightarrow> decimal ds < 2 ^ 53 \<Longrightarrow> parseInt ds = Finite (of_int (decimal ds))"
  by (simp add: parseInt_exact decimal_nonneg)

lemma ilog2_eq:
  assumes "0 < x" "power_int 2 k \<le> x" "x < power_int 2 (k + 1)"
  shows "ilog2 x = k"
  using ilog2_ge [OF assms(1,2)] ilog2_less [OF assms(1,3)] by simp

text \<open>
  From \<open>2^53\<close> on not every integer is a double: \<open>2^53 + 1\<close> lies half way between two
  doubles and goes to the even one.
\<close>

lemma parseInt_beyond_exact:
  "decimal ''9007199254740993'' = 2 ^ 53 + 1
   \<and> parseInt ''9007199254740993'' = Finite (2 ^ 53)"
proof -
  have d: "decimal ''9007199254740993'' = 9007199254740993" by (simp add: decimal_def)
  let ?x = "9007199254740993 :: rat"
  have l: "ilog2 ?x = 53"
    by (rule ilog2_eq) (simp_all add: power_int_def)
  have h: "half_even (?x / 2) = 4503599627370496"
  proof -
    have f: "\<lfloor>?x / 2\<rfloor> = 4503599627370496" by (intro floor_unique) simp_all
    show ?thesis unfolding half_even_def Let_def f by simp
  qed
  have "to_double ?x = Finite 9007199254740992"
    unfolding to_double_def Let_def l by (simp add: h)
  with d show ?thesis by (simp add: parseInt_def)
qed

text \<open>
  \<^verbatim>\<open>Math.round((q / 70) * 100)\<close>, computed on doubles, is the rounding of the exact
  quotient for every \<open>q\<close> from 0 to 70: the two roundings move the value by less than
  \<open>1/14\<close>, and \<open>10 q / 7\<close> is at least \<open>1/14\<close> away from every half-integer.
\<close>

lemma tiny_le: "power_int (2::rat) (- 1022) \<le> 1 / 128"
proof -
  have "power_int (2::rat) (- 1022) \<le> power_int 2 (- 7)"
    by (intro power_int_increasing) simp_all
  also have "\<dots> = 1 / 128" by (simp add: power_int_minus)
  finally show ?thesis .
qed

lemma small_less: "x \<le> 200 \<Longrightarrow> x < (2::rat) ^ 1023"
proof -
  assume "x \<le> 200"
  also have "(200::rat) < 2 ^ 8" by simp
  also have "(2::rat) ^ 8 \<le> 2 ^ 1023" by (intro power_increasing) simp_all
  finally show ?thesis .
qed

lemma signal_percent:
  assumes "0 \<le> q" "q \<le> 70"
  shows "Math_round (number_times (number_divide (Finite (of_int q)) 70) 100) =
         Finite (of_int (round (of_int q / 70 * 100 :: rat)))"
proof (cases "q = 0")
  case True
  have "\<lfloor>(1::rat) / 2\<rfloor> = 0" by (intro floor_unique) simp_all
  with True show ?thesis
    by (simp add: number_divide_def number_times_def Math_round_def to_double_def)
next
  case False
  with assms have q1: "1 \<le> q" by simp
  define x :: rat where "x = of_int q / 70"
  have xl: "1 / 70 \<le> x" and xu: "x \<le> 1" using q1 assms(2) by (simp_all add: x_def)
  have "power_int 2 (- 1022) \<le> x" using tiny_le xl by linarith
  moreover have "x < 2 ^ 1023" using xu by (intro small_less) simp
  ultimately obtain y1 where y1: "to_double x = Finite y1" and e1: "\<bar>y1 - x\<bar> \<le> x / 2 ^ 53"
    using to_double_error by blast
  have h: "x / 2 ^ 53 \<le> x / 2" using xl by (simp add: field_simps)
  from e1 h xl xu have y1l: "1 / 140 \<le> y1" and y1u: "y1 \<le> 2" by linarith+
  have "power_int 2 (- 1022) \<le> y1 * 100" using tiny_le y1l by linarith
  moreover have "y1 * 100 < 2 ^ 1023" using y1u by (intro small_less) simp
  ultimately obtain y2 where y2: "to_double (y1 * 100) = Finite y2"
    and e2: "\<bar>y2 - y1 * 100\<bar> \<le> y1 * 100 / 2 ^ 53"
    using to_double_error by blast
  define t :: rat where "t = of_int q / 70 * 100"
  have tx: "t = x * 100" by (simp add: t_def x_def)
  have b1: "y1 * 100 / 2 ^ 53 \<le> 200 / 2 ^ 53" using y1u by (simp add: divide_right_mono)
  have b2: "x / 2 ^ 53 \<le> 1 / 2 ^ 53" using xu by (simp add: divide_right_mono)
  have d: "y2 - t = (y2 - y1 * 100) + 100 * (y1 - x)" unfolding tx by (simp add: algebra_simps)
  have s2: "\<bar>y2 - y1 * 100\<bar> \<le> 200 / 2 ^ 53" using e2 b1 by (rule order_trans)
  have "\<bar>y1 - x\<bar> \<le> 1 / 2 ^ 53" using e1 b2 by (rule order_trans)
  then have s3: "\<bar>100 * (y1 - x)\<bar> \<le> 100 * (1 / 2 ^ 53)"
    by (subst abs_mult) simp
  have "\<bar>y2 - t\<bar> \<le> \<bar>y2 - y1 * 100\<bar> + \<bar>100 * (y1 - x)\<bar>"
    unfolding d by (rule abs_triangle_ineq)
  also have "\<dots> \<le> 200 / 2 ^ 53 + 100 * (1 / 2 ^ 53)" using s2 s3 by (rule add_mono)
  also have "\<dots> < 1 / 14" by simp
  finally have close: "\<bar>y2 - t\<bar> < 1 / 14" .
  define k where "k = (20 * q + 7) div 14"
  define r where "r = (20 * q + 7) mod 14"
  have r: "1 \<le> r" "r \<le> 13" unfolding r_def by presburger+
  have "20 * q + 7 = 14 * k + r" unfolding k_def r_def by simp
  then have "(of_int (20 * q + 7) :: rat) = of_int (14 * k + r)" by simp
  then have th: "t + 1 / 2 = of_int k + of_int r / 14" by (simp add: t_def field_simps)
  have rl: "1 / 14 \<le> (of_int r :: rat) / 14" and ru: "(of_int r :: rat) / 14 \<le> 13 / 14"
    using r by simp_all
  have ft: "\<lfloor>t + 1 / 2\<rfloor> = k" using th rl ru by (intro floor_unique) linarith+
  have fy: "\<lfloor>y2 + 1 / 2\<rfloor> = k" using th rl ru close by (intro floor_unique) linarith+
  have "round t = k" using ft by (simp add: round_def)
  moreover have "Math_round (number_times (number_divide (Finite (of_int q)) 70) 100) =
                 Finite (of_int k)"
    using y1 y2 fy by (simp add: number_divide_def number_times_def Math_round_def x_def)
  ultimately show ?thesis by (simp add: t_def)
qed

section \<open>Properties of the parsers\<close>

subsection \<open>What each expression matches\<close>

lemma lit_Some: "lit s inp = Some r \<longleftrightarrow> inp = s @ r"
  by (auto simp: lit_def prefix_def)

lemma at_end_Some: "at_end inp = Some u \<longleftrightarrow> inp = []"
  by (simp add: at_end_def)

lemma many1_SomeD:
  "many1 P inp = Some (w, r) \<Longrightarrow> w \<noteq> [] \<and> list_all P w \<and> inp = w @ r \<and> (r = [] \<or> \<not> P (hd r))"
  by (auto simp: many1_def list_all_iff hd_dropWhile dest: set_takeWhileD split: if_splits)

lemma many1_append:
  "w \<noteq> [] \<Longrightarrow> list_all P w \<Longrightarrow> r = [] \<or> \<not> P (hd r) \<Longrightarrow> many1 P (w @ r) = Some (w, r)"
proof -
  assume w: "w \<noteq> []" and a: "list_all P w" and r: "r = [] \<or> \<not> P (hd r)"
  from r have t: "takeWhile P r = []" and d: "dropWhile P r = r"
    by (cases r; auto)+
  from a have "takeWhile P (w @ r) = w" "dropWhile P (w @ r) = r"
    by (simp_all add: list_all_iff t d)
  with w show ?thesis by (simp add: many1_def)
qed

lemma many1_all: "w \<noteq> [] \<Longrightarrow> list_all P w \<Longrightarrow> many1 P w = Some (w, [])"
  using many1_append [of w P "[]"] by simp

lemma dots_apos_end_Some:
  "dots_apos_end inp = Some g \<longleftrightarrow> g \<noteq> [] \<and> list_all is_dot g \<and> inp = g @ apos"
  by (cases inp rule: rev_cases) (auto simp: dots_apos_end_def)

lemma dots_apos_end_append:
  "g \<noteq> [] \<Longrightarrow> list_all is_dot g \<Longrightarrow> dots_apos_end (g @ apos) = Some g"
  by (simp add: dots_apos_end_Some)

lemma colon_not_word: "\<not> is_word (CHR '':'')" by (simp add: is_word_def)

lemma connectedMatch_Some:
  "connectedMatch line = Some dev \<longleftrightarrow> dev \<noteq> [] \<and> list_all is_word dev \<and> line = dev @ '': connected''"
  apply (rule iffI)
  subgoal
    by (auto simp: connectedMatch_def bind_eq_Some_conv lit_Some at_end_Some dest!: many1_SomeD)
  subgoal
    by (simp add: connectedMatch_def many1_append colon_not_word lit_def at_end_def)
  done

lemma disconnectedMatch_Some:
  "disconnectedMatch line = Some dev \<longleftrightarrow> dev \<noteq> [] \<and> list_all is_word dev \<and> line = dev @ '': disconnected''"
  apply (rule iffI)
  subgoal
    by (auto simp: disconnectedMatch_def bind_eq_Some_conv lit_Some at_end_Some dest!: many1_SomeD)
  subgoal
    by (simp add: disconnectedMatch_def many1_append colon_not_word lit_def at_end_def)
  done

lemma usingMatch_Some:
  "usingMatch line = Some (dev, conn) \<longleftrightarrow>
     dev \<noteq> [] \<and> list_all is_word dev \<and> conn \<noteq> [] \<and> list_all is_dot conn
     \<and> line = dev @ '': using connection '' @ apos @ conn @ apos"
  apply (rule iffI)
  subgoal
    by (auto simp: usingMatch_def bind_eq_Some_conv lit_Some dots_apos_end_Some dest!: many1_SomeD)
  subgoal
    by (clarsimp simp: usingMatch_def many1_append colon_not_word lit_def dots_apos_end_append)
  done

lemma apos_not_word: "\<not> is_word (CHR 0x27)" by (simp add: is_word_def)

lemma connectivityMatch_Some:
  "connectivityMatch line = Some level \<longleftrightarrow>
     level \<noteq> [] \<and> list_all is_word level \<and> line = ''Connectivity is now '' @ apos @ level @ apos"
  apply (rule iffI)
  subgoal
    by (auto simp: connectivityMatch_def bind_eq_Some_conv lit_Some at_end_Some dest!: many1_SomeD)
  subgoal
    by (simp add: connectivityMatch_def many1_append apos_not_word lit_def at_end_def)
  done

lemma hyphen_word_or_hyphen: "\<not> is_word_or_hyphen (CHR '' '')" by (simp add: is_word_or_hyphen_def is_word_def)


lemma parseMonitorLine_None:
  "parseMonitorLine line = None \<longleftrightarrow>
     connectedMatch line = None \<and> disconnectedMatch line = None \<and> usingMatch line = None
     \<and> connectivityMatch line = None"
  by (simp add: parseMonitorLine_def split: option.split)

lemma connectedMatch_grammar: "connectedMatch line = Some dev \<Longrightarrow> grammar_connected line"
  by (auto simp: connectedMatch_Some grammar_connected_def)

lemma disconnectedMatch_grammar: "disconnectedMatch line = Some dev \<Longrightarrow> grammar_disconnected line"
  by (auto simp: disconnectedMatch_Some grammar_disconnected_def)

lemma usingMatch_grammar: "usingMatch line = Some p \<Longrightarrow> grammar_using line"
  by (cases p) (auto simp: usingMatch_Some grammar_using_def)

lemma connectivityMatch_word_line:
  "connectivityMatch line = Some level \<Longrightarrow> connectivity_word_line line"
  by (auto simp: connectivityMatch_Some connectivity_word_line_def)

lemma parseMonitorLine_no_production:
  assumes "\<not> grammar_connected line" "\<not> grammar_disconnected line" "\<not> grammar_using line"
    "\<not> connectivity_word_line line"
  shows "parseMonitorLine line = None"
proof -
  have "connectedMatch line = None"
    using assms(1) connectedMatch_grammar by (cases "connectedMatch line") auto
  moreover have "disconnectedMatch line = None"
    using assms(2) disconnectedMatch_grammar by (cases "disconnectedMatch line") auto
  moreover have "usingMatch line = None"
    using assms(3) usingMatch_grammar by (cases "usingMatch line") auto
  moreover have "connectivityMatch line = None"
    using assms(4) connectivityMatch_word_line by (cases "connectivityMatch line") auto
  ultimately show ?thesis by (simp add: parseMonitorLine_None)
qed


lemma grammar_connected_suffix: "grammar_connected line \<longleftrightarrow> suffix '': connected'' line"
  by (auto simp: grammar_connected_def suffix_def)

lemma grammar_disconnected_suffix: "grammar_disconnected line \<longleftrightarrow> suffix '': disconnected'' line"
  by (auto simp: grammar_disconnected_def suffix_def)

lemma grammar_using_colon: "grammar_using line \<Longrightarrow> CHR '':'' \<in> set line"
  by (auto simp: grammar_using_def)


lemma subscribeMatch_Some:
  "subscribeMatch line = Some (act, obj, idx) \<longleftrightarrow>
     act \<noteq> [] \<and> list_all is_word act \<and> obj \<noteq> [] \<and> list_all is_word_or_hyphen obj
     \<and> idx \<noteq> [] \<and> list_all is_digit idx
     \<and> line = ''Event '' @ apos @ act @ apos @ '' on '' @ obj @ '' #'' @ idx"
  apply (rule iffI)
  subgoal
    by (auto simp: subscribeMatch_def bind_eq_Some_conv lit_Some at_end_Some dest!: many1_SomeD)
  subgoal
    by (clarsimp simp: subscribeMatch_def many1_append many1_all apos_not_word
        hyphen_word_or_hyphen lit_def at_end_def)
  done



lemma parse_connectivity_word:
  assumes "level \<noteq> []" "list_all is_word level"
  shows "parseMonitorLine (''Connectivity is now '' @ apos @ level @ apos) =
         Some \<lparr>type = Connectivity, device = None, ssid = None, connectivity = Some level\<rparr>"
proof -
  let ?l = "''Connectivity is now '' @ apos @ level @ apos"
  have 1: "connectedMatch ?l = None"
    by (simp add: connectedMatch_def many1_def is_word_def lit_def)
  have 2: "disconnectedMatch ?l = None"
    by (simp add: disconnectedMatch_def many1_def is_word_def lit_def)
  have 3: "usingMatch ?l = None"
    by (simp add: usingMatch_def many1_def is_word_def lit_def)
  have 4: "connectivityMatch ?l = Some level"
    using assms by (simp add: connectivityMatch_Some)
  show ?thesis using 1 2 3 4 by (simp add: parseMonitorLine_def)
qed

lemma grammar_using_last: "grammar_using line \<Longrightarrow> last line = CHR 0x27"
  by (auto simp: grammar_using_def)

subsection \<open>Lines of the network monitor\<close>

text \<open>
  C7, as stated, fails on the fourth production: a line
  \<^verbatim>\<open>Connectivity is now 'portal'\<close> fits none of the four productions of the
  specification and is parsed into a connectivity event.
\<close>

theorem unlisted_connectivity_parsed:
  "\<not> grammar_connected (''Connectivity is now 'portal'' @ apos)
   \<and> \<not> grammar_disconnected (''Connectivity is now 'portal'' @ apos)
   \<and> \<not> grammar_using (''Connectivity is now 'portal'' @ apos)
   \<and> \<not> grammar_connectivity (''Connectivity is now 'portal'' @ apos)
   \<and> parseMonitorLine (''Connectivity is now 'portal'' @ apos) =
       Some \<lparr>type = Connectivity, device = None, ssid = None, connectivity = Some ''portal''\<rparr>"
proof -
  have c: "\<not> grammar_using (''Connectivity is now 'portal'' @ apos)"
    using grammar_using_colon [of "''Connectivity is now 'portal'' @ apos"] by auto
  have e: "parseMonitorLine (''Connectivity is now 'portal'' @ apos) =
       Some \<lparr>type = Connectivity, device = None, ssid = None, connectivity = Some ''portal''\<rparr>"
    using parse_connectivity_word [of "''portal''"] by (simp add: is_word_def)
  have a: "\<not> grammar_connected (''Connectivity is now 'portal'' @ apos)"
    by (simp add: grammar_connected_suffix suffix_to_prefix)
  have b: "\<not> grammar_disconnected (''Connectivity is now 'portal'' @ apos)"
    by (simp add: grammar_disconnected_suffix suffix_to_prefix)
  have d: "\<not> grammar_connectivity (''Connectivity is now 'portal'' @ apos)"
    by (simp add: grammar_connectivity_def)
  show ?thesis by (intro conjI) (rule a b c d e)+
qed

text \<open>
  C7, amended. The three example lines parse as the specification says and
  \<^verbatim>\<open>NetworkManager is running\<close> gives \<open>None\<close>. Every line that fits none of the
  productions \<^verbatim>\<open><device>: connected\<close>, \<^verbatim>\<open><device>: disconnected\<close>,
  \<^verbatim>\<open><device>: using connection '<ssid>'\<close> and \<^verbatim>\<open>Connectivity is now '<word>'\<close>, with
  \<^verbatim>\<open><word>\<close> any non-empty run of word characters, gives \<open>None\<close>; and every line
  \<^verbatim>\<open>Connectivity is now '<word>'\<close> gives the connectivity event carrying that word.
\<close>

theorem parseMonitorLine_productions:
  "parseMonitorLine ''wlan0: connected'' =
     Some \<lparr>type = Connected, device = Some ''wlan0'', ssid = None, connectivity = None\<rparr>
   \<and> parseMonitorLine (''wlan0: using connection 'My Network 5G'' @ apos) =
     Some \<lparr>type = Connecting, device = Some ''wlan0'', ssid = Some ''My Network 5G'',
           connectivity = None\<rparr>
   \<and> parseMonitorLine (''Connectivity is now 'limited'' @ apos) =
     Some \<lparr>type = Connectivity, device = None, ssid = None, connectivity = Some ''limited''\<rparr>
   \<and> parseMonitorLine ''NetworkManager is running'' = None
   \<and> (\<forall>line. \<not> grammar_connected line \<and> \<not> grammar_disconnected line \<and> \<not> grammar_using line
          \<and> \<not> connectivity_word_line line \<longrightarrow> parseMonitorLine line = None)
   \<and> (\<forall>level. level \<noteq> [] \<and> list_all is_word level \<longrightarrow>
          parseMonitorLine (''Connectivity is now '' @ apos @ level @ apos) =
            Some \<lparr>type = Connectivity, device = None, ssid = None, connectivity = Some level\<rparr>)"
proof -
  have 1: "parseMonitorLine ''wlan0: connected'' =
     Some \<lparr>type = Connected, device = Some ''wlan0'', ssid = None, connectivity = None\<rparr>"
    by (simp add: parseMonitorLine_def connectedMatch_def many1_def lit_def at_end_def is_word_def)
  have 2: "parseMonitorLine (''wlan0: using connection 'My Network 5G'' @ apos) =
     Some \<lparr>type = Connecting, device = Some ''wlan0'', ssid = Some ''My Network 5G'',
           connectivity = None\<rparr>"
    by (simp add: parseMonitorLine_def connectedMatch_def disconnectedMatch_def usingMatch_def
        dots_apos_end_def many1_def lit_def at_end_def is_word_def is_dot_def
        is_line_terminator_def)
  have 3: "parseMonitorLine (''Connectivity is now 'limited'' @ apos) =
     Some \<lparr>type = Connectivity, device = None, ssid = None, connectivity = Some ''limited''\<rparr>"
    using parse_connectivity_word [of "''limited''"] by (simp add: is_word_def)
  have 4: "parseMonitorLine ''NetworkManager is running'' = None"
    by (simp add: parseMonitorLine_def connectedMatch_def disconnectedMatch_def usingMatch_def
        connectivityMatch_def many1_def lit_def is_word_def)
  show ?thesis
    using 1 2 3 4 parseMonitorLine_no_production parse_connectivity_word by blast
qed

theorem parseMonitorLine_productions_witness:
  "\<not> grammar_connected ''wlan0: connecting (prepare)''
   \<and> \<not> grammar_disconnected ''wlan0: connecting (prepare)''
   \<and> \<not> grammar_using ''wlan0: connecting (prepare)''
   \<and> \<not> connectivity_word_line ''wlan0: connecting (prepare)''
   \<and> parseMonitorLine ''wlan0: connecting (prepare)'' = None
   \<and> ''unknown'' \<noteq> [] \<and> list_all is_word ''unknown''
   \<and> parseMonitorLine (''Connectivity is now 'unknown'' @ apos) =
       Some \<lparr>type = Connectivity, device = None, ssid = None, connectivity = Some ''unknown''\<rparr>"
proof -
  have a: "\<not> grammar_connected ''wlan0: connecting (prepare)''"
    by (simp add: grammar_connected_suffix suffix_to_prefix)
  have b: "\<not> grammar_disconnected ''wlan0: connecting (prepare)''"
    by (simp add: grammar_disconnected_suffix suffix_to_prefix)
  have c: "\<not> grammar_using ''wlan0: connecting (prepare)''"
    using grammar_using_last [of "''wlan0: connecting (prepare)''"] by auto
  have d: "\<not> connectivity_word_line ''wlan0: connecting (prepare)''"
    by (simp add: connectivity_word_line_def)
  have e: "''unknown'' \<noteq> []" by simp
  have f: "list_all is_word ''unknown''" by (simp add: is_word_def)
  from parseMonitorLine_productions have
    g: "\<not> grammar_connected ''wlan0: connecting (prepare)''
        \<and> \<not> grammar_disconnected ''wlan0: connecting (prepare)''
        \<and> \<not> grammar_using ''wlan0: connecting (prepare)''
        \<and> \<not> connectivity_word_line ''wlan0: connecting (prepare)''
        \<longrightarrow> parseMonitorLine ''wlan0: connecting (prepare)'' = None"
    and h: "''unknown'' \<noteq> [] \<and> list_all is_word ''unknown'' \<longrightarrow>
          parseMonitorLine (''Connectivity is now '' @ apos @ ''unknown'' @ apos) =
            Some \<lparr>type = Connectivity, device = None, ssid = None,
                  connectivity = Some ''unknown''\<rparr>"
    by blast+
  from g a b c d have i: "parseMonitorLine ''wlan0: connecting (prepare)'' = None" by blast
  from h e f have j: "parseMonitorLine (''Connectivity is now 'unknown'' @ apos) =
       Some \<lparr>type = Connectivity, device = None, ssid = None, connectivity = Some ''unknown''\<rparr>"
    by simp
  show ?thesis by (intro conjI) (rule a b c d e f i j)+
qed

subsection \<open>Device names with other characters\<close>

lemma takeWhile_colon:
  "CHR '':'' \<notin> set xs \<Longrightarrow> takeWhile (\<lambda>c. c \<noteq> CHR '':'') (xs @ CHR '':'' # ys) = xs"
  by (induction xs) auto

lemma word_no_colon: "list_all is_word xs \<Longrightarrow> CHR '':'' \<notin> set xs"
  using colon_not_word by (auto simp: list_all_iff)

lemma word_no_apos: "list_all is_word xs \<Longrightarrow> CHR 0x27 \<notin> set xs"
  using apos_not_word by (auto simp: list_all_iff)

lemma non_word_device_connected:
  assumes "\<not> list_all is_word dev"
  shows "parseMonitorLine (dev @ '': connected'') = None"
proof -
  let ?l = "dev @ '': connected''"
  have 1: "connectedMatch ?l = None"
  proof (cases "connectedMatch ?l")
    case (Some d)
    then have "list_all is_word d" "dev @ '': connected'' = d @ '': connected''"
      by (simp_all add: connectedMatch_Some)
    with assms show ?thesis by simp
  qed simp
  have 2: "disconnectedMatch ?l = None"
  proof (cases "disconnectedMatch ?l")
    case (Some d)
    then have "dev @ '': connected'' = d @ '': disconnected''"
      by (simp add: disconnectedMatch_Some)
    then have "rev (dev @ '': connected'') = rev (d @ '': disconnected'')" by simp
    then show ?thesis by simp
  qed simp
  have 3: "usingMatch ?l = None"
  proof (cases "usingMatch ?l")
    case (Some p)
    then have "last ?l = CHR 0x27" by (cases p) (auto simp: usingMatch_Some)
    then show ?thesis by simp
  qed simp
  have 4: "connectivityMatch ?l = None"
  proof (cases "connectivityMatch ?l")
    case (Some p)
    then have "last ?l = CHR 0x27" by (auto simp: connectivityMatch_Some)
    then show ?thesis by simp
  qed simp
  show ?thesis using 1 2 3 4 by (simp add: parseMonitorLine_None)
qed

lemma non_word_device_disconnected:
  assumes "\<not> list_all is_word dev"
  shows "parseMonitorLine (dev @ '': disconnected'') = None"
proof -
  let ?l = "dev @ '': disconnected''"
  have 1: "connectedMatch ?l = None"
  proof (cases "connectedMatch ?l")
    case (Some d)
    then have "dev @ '': disconnected'' = d @ '': connected''"
      by (simp add: connectedMatch_Some)
    then have "rev (dev @ '': disconnected'') = rev (d @ '': connected'')" by simp
    then show ?thesis by simp
  qed simp
  have 2: "disconnectedMatch ?l = None"
  proof (cases "disconnectedMatch ?l")
    case (Some d)
    then have "list_all is_word d" "dev @ '': disconnected'' = d @ '': disconnected''"
      by (simp_all add: disconnectedMatch_Some)
    with assms show ?thesis by simp
  qed simp
  have 3: "usingMatch ?l = None"
  proof (cases "usingMatch ?l")
    case (Some p)
    then have "last ?l = CHR 0x27" by (cases p) (auto simp: usingMatch_Some)
    then show ?thesis by simp
  qed simp
  have 4: "connectivityMatch ?l = None"
  proof (cases "connectivityMatch ?l")
    case (Some p)
    then have "last ?l = CHR 0x27" by (auto simp: connectivityMatch_Some)
    then show ?thesis by simp
  qed simp
  show ?thesis using 1 2 3 4 by (simp add: parseMonitorLine_None)
qed

lemma non_word_device_using:
  assumes "\<not> list_all is_word dev" "CHR '':'' \<notin> set dev"
  shows "parseMonitorLine (dev @ '': using connection '' @ apos @ conn @ apos) = None"
proof -
  let ?l = "dev @ '': using connection '' @ apos @ conn @ apos"
  have l: "?l = dev @ CHR '':'' # ('' using connection '' @ apos @ conn @ apos)" by simp
  have t: "takeWhile (\<lambda>c. c \<noteq> CHR '':'') ?l = dev"
    unfolding l using assms(2) by (rule takeWhile_colon)
  have 1: "connectedMatch ?l = None"
  proof (cases "connectedMatch ?l")
    case (Some d)
    then have "last ?l = CHR ''d''" by (auto simp: connectedMatch_Some)
    then show ?thesis by simp
  qed simp
  have 2: "disconnectedMatch ?l = None"
  proof (cases "disconnectedMatch ?l")
    case (Some d)
    then have "last ?l = CHR ''d''" by (auto simp: disconnectedMatch_Some)
    then show ?thesis by simp
  qed simp
  have 3: "usingMatch ?l = None"
  proof (cases "usingMatch ?l")
    case (Some p)
    obtain d c where p: "p = (d, c)" by (cases p)
    from Some p have w: "list_all is_word d"
      and e: "?l = d @ CHR '':'' # ('' using connection '' @ apos @ c @ apos)"
      by (simp_all add: usingMatch_Some)
    have "takeWhile (\<lambda>c. c \<noteq> CHR '':'') ?l = d"
      unfolding e using word_no_colon [OF w] by (rule takeWhile_colon)
    with t w assms(1) show ?thesis by simp
  qed simp
  have 4: "connectivityMatch ?l = None"
  proof (cases "connectivityMatch ?l")
    case (Some lv)
    then have w: "list_all is_word lv"
      and e: "?l = ''Connectivity is now '' @ apos @ lv @ apos"
      by (simp_all add: connectivityMatch_Some)
    have "CHR '':'' \<in> set ?l" by simp
    moreover have "CHR '':'' \<notin> set (''Connectivity is now '' @ apos @ lv @ apos)"
      using word_no_colon [OF w] by simp
    ultimately show ?thesis using e by metis
  qed simp
  show ?thesis using 1 2 3 4 by (simp add: parseMonitorLine_None)
qed


text \<open>
  The device of a line is the text before its first colon. (A text with a colon
  before \<^verbatim>\<open>: using connection '<ssid>'\<close> is not the device of its line: the line
  below has the device \<^verbatim>\<open>wlan0\<close>.)
\<close>

lemma colon_in_device_parsed:
  "parseMonitorLine
     (''wlan0: using connection 'a-b'' @ '': using connection '' @ apos @ ''x'' @ apos) =
   Some \<lparr>type = Connecting, device = Some ''wlan0'',
         ssid = Some ''a-b: using connection 'x'', connectivity = None\<rparr>"
  by (simp add: parseMonitorLine_def connectedMatch_def disconnectedMatch_def usingMatch_def
        dots_apos_end_def many1_def lit_def at_end_def is_word_def is_dot_def
        is_line_terminator_def)

text \<open>
  C10. When \<^verbatim>\<open><device>\<close> contains a character outside \<^verbatim>\<open>[A-Za-z0-9_]\<close>, for example a
  hyphen as in \<^verbatim>\<open>br-lan\<close>, the lines \<^verbatim>\<open><device>: connected\<close> and
  \<^verbatim>\<open><device>: disconnected\<close> give \<open>None\<close>, and so does
  \<^verbatim>\<open><device>: using connection '<ssid>'\<close>, \<^verbatim>\<open><device>\<close> being the device of the line, the
  text before its first colon.
\<close>

theorem non_word_device_null:
  "\<not> list_all is_word dev \<Longrightarrow>
   parseMonitorLine (dev @ '': connected'') = None
   \<and> parseMonitorLine (dev @ '': disconnected'') = None
   \<and> (CHR '':'' \<notin> set dev \<longrightarrow>
        parseMonitorLine (dev @ '': using connection '' @ apos @ conn @ apos) = None)"
  using non_word_device_connected non_word_device_disconnected non_word_device_using
  by blast

theorem non_word_device_null_witness:
  "\<not> list_all is_word ''br-lan'' \<and> CHR '':'' \<notin> set ''br-lan''
   \<and> parseMonitorLine ''br-lan: connected'' = None
   \<and> parseMonitorLine ''br-lan: disconnected'' = None
   \<and> parseMonitorLine (''br-lan: using connection 'Home'' @ apos) = None"
proof -
  have a: "\<not> list_all is_word ''br-lan''" by (simp add: is_word_def)
  have b: "CHR '':'' \<notin> set ''br-lan''" by simp
  from non_word_device_null [OF a, of "''Home''"] b
  show ?thesis using a by simp
qed

subsection \<open>Lines of the audio subscription\<close>

lemma parseSubscribeLine_Some:
  "parseSubscribeLine line = Some ev \<longleftrightarrow>
     (\<exists>act obj idx. subscribe_pattern act obj idx line
        \<and> ev = \<lparr>action = act, object = obj, index = parseInt idx\<rparr>)"
proof
  assume "parseSubscribeLine line = Some ev"
  then obtain act obj idx where m: "subscribeMatch line = Some (act, obj, idx)"
    and ev: "ev = \<lparr>action = act, object = obj, index = parseInt idx\<rparr>"
    by (auto simp: parseSubscribeLine_def split: option.splits if_splits)
  from m have "subscribe_pattern act obj idx line"
    by (simp add: subscribeMatch_Some subscribe_pattern_def event_line_def)
  with ev show "\<exists>act obj idx. subscribe_pattern act obj idx line
        \<and> ev = \<lparr>action = act, object = obj, index = parseInt idx\<rparr>" by blast
next
  assume "\<exists>act obj idx. subscribe_pattern act obj idx line
        \<and> ev = \<lparr>action = act, object = obj, index = parseInt idx\<rparr>"
  then obtain act obj idx where p: "subscribe_pattern act obj idx line"
    and ev: "ev = \<lparr>action = act, object = obj, index = parseInt idx\<rparr>" by blast
  from p have m: "subscribeMatch line = Some (act, obj, idx)"
    by (simp add: subscribeMatch_Some subscribe_pattern_def event_line_def)
  from p have "act \<noteq> []" "obj \<noteq> []" "idx \<noteq> []" by (simp_all add: subscribe_pattern_def)
  with m ev show "parseSubscribeLine line = Some ev"
    by (simp add: parseSubscribeLine_def)
qed

lemma audio_action_word: "act \<in> set audio_actions \<Longrightarrow> act \<noteq> [] \<and> list_all is_word act"
  by (auto simp: audio_actions_def is_word_def)

lemma audio_object_word:
  "obj \<in> set audio_objects \<Longrightarrow> obj \<noteq> [] \<and> list_all is_word_or_hyphen obj"
  by (auto simp: audio_objects_def is_word_or_hyphen_def is_word_def)

lemma grammar_subscribe_pattern:
  "grammar_subscribe line \<Longrightarrow> \<exists>act obj idx. subscribe_pattern act obj idx line"
  unfolding grammar_subscribe_def subscribe_pattern_def
  using audio_action_word audio_object_word by blast

text \<open>
  C8, as stated, fails: the expression takes any word as action and any run of word
  characters and hyphens as object type, so a line with an object type outside the
  list of the specification is parsed into an event.
\<close>

theorem unlisted_object_parsed:
  "\<not> grammar_subscribe ''Event 'new' on sample-cache #3''
   \<and> parseSubscribeLine ''Event 'new' on sample-cache #3'' =
       Some \<lparr>action = ''new'', object = ''sample-cache'', index = Finite 3\<rparr>"
proof -
  have a: "\<not> grammar_subscribe ''Event 'new' on sample-cache #3''"
    by (auto simp: grammar_subscribe_def audio_actions_def audio_objects_def event_line_def)
  have p: "parseInt ''3'' = Finite 3"
    using parseInt_exact [of "''3''"] by (simp add: decimal_def)
  have b: "parseSubscribeLine ''Event 'new' on sample-cache #3'' =
       Some \<lparr>action = ''new'', object = ''sample-cache'', index = Finite 3\<rparr>"
    by (simp add: parseSubscribeLine_def subscribeMatch_def many1_def lit_def at_end_def
        is_word_def is_word_or_hyphen_def is_digit_def p)
  show ?thesis using a b by (rule conjI)
qed

text \<open>
  C8, amended. \<^verbatim>\<open>parseSubscribeLine\<close> returns an event exactly for the lines
  \<^verbatim>\<open>Event '<action>' on <objectType> #<index>\<close> with \<^verbatim>\<open><action>\<close> a non-empty run of
  word characters, \<^verbatim>\<open><objectType>\<close> a non-empty run of word characters and hyphens
  and \<^verbatim>\<open><index>\<close> a non-empty run of digits; the event carries the action and the
  object type as written and, as index, \<^verbatim>\<open>parseInt\<close> of the digits: the double nearest
  to their decimal value, which is that value when it is below \<open>2^53\<close>. Every line of
  the grammar of the specification is such a line. \<^verbatim>\<open>Event 'change' on sink #56\<close>
  gives action \<^verbatim>\<open>change\<close>, object \<^verbatim>\<open>sink\<close>, index 56; with the index
  \<^verbatim>\<open>#9007199254740993\<close>, which is \<open>2^53 + 1\<close>, the event has the index \<open>2^53\<close>; and
  \<^verbatim>\<open>Event 'change' on sink\<close> gives \<open>None\<close>.
\<close>

theorem parseSubscribeLine_pattern:
  "(\<forall>line. parseSubscribeLine line \<noteq> None \<longleftrightarrow> (\<exists>act obj idx. subscribe_pattern act obj idx line))
   \<and> (\<forall>line act obj idx. subscribe_pattern act obj idx line \<longrightarrow>
         parseSubscribeLine line = Some \<lparr>action = act, object = obj, index = parseInt idx\<rparr>
         \<and> (decimal idx < 2 ^ 53 \<longrightarrow> parseInt idx = Finite (of_int (decimal idx))))
   \<and> (\<forall>line. grammar_subscribe line \<longrightarrow> parseSubscribeLine line \<noteq> None)
   \<and> parseSubscribeLine ''Event 'change' on sink #56'' =
       Some \<lparr>action = ''change'', object = ''sink'', index = Finite 56\<rparr>
   \<and> parseSubscribeLine ''Event 'change' on sink #9007199254740993'' =
       Some \<lparr>action = ''change'', object = ''sink'', index = Finite (2 ^ 53)\<rparr>
   \<and> parseSubscribeLine ''Event 'change' on sink'' = None"
proof -
  have 1: "parseSubscribeLine line \<noteq> None \<longleftrightarrow> (\<exists>act obj idx. subscribe_pattern act obj idx line)"
    for line
  proof (cases "parseSubscribeLine line")
    case None
    then have "\<not> (\<exists>act obj idx. subscribe_pattern act obj idx line)"
      using parseSubscribeLine_Some [of line] by auto
    with None show ?thesis by simp
  next
    case (Some ev)
    then have "\<exists>act obj idx. subscribe_pattern act obj idx line"
      using parseSubscribeLine_Some [of line ev] by blast
    with Some show ?thesis by simp
  qed
  have 2: "parseSubscribeLine line = Some \<lparr>action = act, object = obj, index = parseInt idx\<rparr>
           \<and> (decimal idx < 2 ^ 53 \<longrightarrow> parseInt idx = Finite (of_int (decimal idx)))"
    if p: "subscribe_pattern act obj idx line" for line act obj idx
  proof
    show "parseSubscribeLine line = Some \<lparr>action = act, object = obj, index = parseInt idx\<rparr>"
      using p parseSubscribeLine_Some by blast
    from p have "list_all is_digit idx" by (simp add: subscribe_pattern_def)
    then show "decimal idx < 2 ^ 53 \<longrightarrow> parseInt idx = Finite (of_int (decimal idx))"
      by (simp add: parseInt_digits)
  qed
  have 3: "parseSubscribeLine line \<noteq> None" if "grammar_subscribe line" for line
    using grammar_subscribe_pattern [OF that] 1 by simp
  have p: "parseInt ''56'' = Finite 56"
    using parseInt_exact [of "''56''"] by (simp add: decimal_def)
  have 4: "parseSubscribeLine ''Event 'change' on sink #56'' =
       Some \<lparr>action = ''change'', object = ''sink'', index = Finite 56\<rparr>"
    by (simp add: parseSubscribeLine_def subscribeMatch_def many1_def lit_def at_end_def
        is_word_def is_word_or_hyphen_def is_digit_def p)
  have q: "parseInt ''9007199254740993'' = Finite (2 ^ 53)"
    using parseInt_beyond_exact by (rule conjunct2)
  have "subscribeMatch ''Event 'change' on sink #9007199254740993'' =
        Some (''change'', ''sink'', ''9007199254740993'')"
    by (simp add: subscribeMatch_def many1_def lit_def at_end_def
        is_word_def is_word_or_hyphen_def is_digit_def)
  then have 5: "parseSubscribeLine ''Event 'change' on sink #9007199254740993'' =
       Some \<lparr>action = ''change'', object = ''sink'', index = Finite (2 ^ 53)\<rparr>"
    unfolding parseSubscribeLine_def q [symmetric] by simp
  have 6: "parseSubscribeLine ''Event 'change' on sink'' = None"
    by (simp add: parseSubscribeLine_def subscribeMatch_def many1_def lit_def at_end_def
        is_word_def is_word_or_hyphen_def is_digit_def)
  show ?thesis
    apply (intro conjI allI impI)
    subgoal for line by (rule 1)
    subgoal for line act obj idx using 2 [of act obj idx line] by blast
    subgoal for line act obj idx using 2 [of act obj idx line] by blast
    subgoal for line by (rule 3)
    subgoal by (rule 4)
    subgoal by (rule 5)
    subgoal by (rule 6)
    done
qed

theorem parseSubscribeLine_pattern_witness:
  "subscribe_pattern ''remove'' ''source-output'' ''12'' ''Event 'remove' on source-output #12''
   \<and> grammar_subscribe ''Event 'remove' on source-output #12''
   \<and> decimal ''12'' = 12
   \<and> parseSubscribeLine ''Event 'remove' on source-output #12'' =
       Some \<lparr>action = ''remove'', object = ''source-output'', index = Finite 12\<rparr>
   \<and> parseSubscribeLine ''Event 'remove' on source-output #12'' \<noteq> None"
proof -
  let ?l = "''Event 'remove' on source-output #12''"
  have a: "subscribe_pattern ''remove'' ''source-output'' ''12'' ?l"
    by (simp add: subscribe_pattern_def event_line_def is_word_def is_word_or_hyphen_def
        is_digit_def)
  have b: "grammar_subscribe ?l"
    unfolding grammar_subscribe_def
    by (rule exI [of _ "''remove''"], rule exI [of _ "''source-output''"],
        rule exI [of _ "''12''"])
      (simp add: audio_actions_def audio_objects_def event_line_def is_digit_def)
  have e: "decimal ''12'' = 12" by (simp add: decimal_def)
  then have l: "decimal ''12'' < 2 ^ 53" by simp
  from parseSubscribeLine_pattern a l
  have "parseSubscribeLine ?l =
          Some \<lparr>action = ''remove'', object = ''source-output'', index = parseInt ''12''\<rparr>"
    and "parseInt ''12'' = Finite (of_int (decimal ''12''))"
    by blast+
  then have c: "parseSubscribeLine ?l =
        Some \<lparr>action = ''remove'', object = ''source-output'', index = Finite 12\<rparr>"
    by (simp add: e)
  from parseSubscribeLine_pattern b have d: "parseSubscribeLine ?l \<noteq> None" by blast
  show ?thesis by (intro conjI) (rule a b e c d)+
qed

subsection \<open>The wifi signal\<close>






lemma device_wlan0: "device_chars (Device ''wlan0'') = ''wlan0''"
  by (rule Device_inverse) (simp add: plain_device_def is_space_def is_syntax_character_def)

text \<open>
  At a position the expression matches exactly the rows of the device, and its
  group is the link quality of the row.
\<close>

lemma row_here_wireless_row: "row_here dev inp = Some q \<Longrightarrow> wireless_row dev q inp"
proof -
  assume "row_here dev inp = Some q"
  then obtain r1 r2 s1 r3 d1 r4 s2 r5 r6 r7 where
    a: "lit (device_chars dev) (dropWhile is_space inp) = Some r1" and b: "lit '':'' r1 = Some r2"
    and c: "many1 is_space r2 = Some (s1, r3)" and d: "many1 is_digit r3 = Some (d1, r4)"
    and e: "many1 is_space r4 = Some (s2, r5)" and f: "many1 is_digit r5 = Some (q, r6)"
    and g: "lit ''.'' r6 = Some r7"
    by (auto simp: row_here_def bind_eq_Some_conv)
  have ws: "list_all is_space (takeWhile is_space inp)"
    by (auto simp: list_all_iff dest: set_takeWhileD)
  have inp: "inp = takeWhile is_space inp @ dropWhile is_space inp" by simp
  from a b have 1: "dropWhile is_space inp = device_chars dev @ '':'' @ r2" by (simp add: lit_Some)
  from many1_SomeD [OF c] many1_SomeD [OF d] many1_SomeD [OF e] many1_SomeD [OF f] g
  have 2: "s1 \<noteq> []" "list_all is_space s1" "d1 \<noteq> []" "list_all is_digit d1" "s2 \<noteq> []"
    "list_all is_space s2" "q \<noteq> []" "list_all is_digit q"
    and 3: "r2 = s1 @ d1 @ s2 @ q @ ''.'' @ r7"
    by (simp_all add: lit_Some)
  from inp 1 3
  have "inp = takeWhile is_space inp @ device_chars dev @ '':'' @ s1 @ d1 @ s2 @ q @ ''.'' @ r7"
    by simp
  with ws 2 show ?thesis unfolding wireless_row_def by blast
qed





lemma round_32: "round (of_int 32 / 70 * 100 :: rat) = 46"
  unfolding round_def by (intro floor_unique) simp_all

text \<open>
  From the captured digits to the percentage: below \<open>2^53\<close> \<^verbatim>\<open>parseInt\<close> is exact, and
  for a quality up to 70 the two roundings of the division and the product never
  carry the value across a half.
\<close>

lemma readWifiSignal_found:
  assumes "row_search dev True txt = Some quality" "list_all is_digit quality" "quality \<noteq> []"
    "decimal quality \<le> 70"
  shows "readWifiSignal dev (Some txt) =
         Some (Finite (of_int (round (of_int (decimal quality) / 70 * 100 :: rat))))"
proof -
  have n: "0 \<le> decimal quality" using assms(2) by (rule decimal_nonneg)
  have "decimal quality < 2 ^ 53" using assms(4) by simp
  with n have p: "parseInt quality = Finite (of_int (decimal quality))" by (rule parseInt_exact)
  show ?thesis
    using assms(1,3) signal_percent [OF n assms(4)] by (simp add: readWifiSignal_def p)
qed



text \<open>
  Were the device to have two rows, the first one would count: \<^verbatim>\<open>match\<close> returns the
  leftmost match.
\<close>

lemma leftmost_row_counts:
  "line_start two_rows 25
   \<and> wireless_row (Device ''wlan0'') ''70'' (drop 25 two_rows)
   \<and> readWifiSignal (Device ''wlan0'') (Some two_rows) = Some (Finite 46)"
proof -
  let ?dev = "Device ''wlan0''"
  have a: "line_start two_rows 25"
    by (simp add: line_start_def two_rows_def is_line_terminator_def)
  have "row_here ?dev (drop 25 two_rows) = Some ''70''"
    by (simp add: two_rows_def row_here_def many1_def lit_def is_space_def is_digit_def
        device_wlan0)
  then have b: "wireless_row ?dev ''70'' (drop 25 two_rows)"
    by (rule row_here_wireless_row)
  have s: "row_search ?dev True two_rows = Some ''32''"
    by (simp add: two_rows_def row_here_def many1_def lit_def is_space_def is_digit_def
        device_wlan0)
  have "decimal ''32'' = 32" by (simp add: decimal_def)
  then have e: "readWifiSignal ?dev (Some two_rows) = Some (Finite 46)"
    using readWifiSignal_found [OF s] round_32 by (simp add: is_digit_def)
  show ?thesis by (intro conjI) (rule a b e)+
qed

section \<open>Properties of the monitors\<close>

subsection \<open>After the stop function: no new child\<close>

text \<open>
  Once \<^verbatim>\<open>stopped\<close> is set it stays set and no step spawns a child: a pending restart
  timeout still fires, and \<^verbatim>\<open>startMonitor\<close> returns at its first line.
\<close>

lemma startMonitor_stopped: "stopped s \<Longrightarrow> startMonitor failed w piped s = s"
  by (simp add: startMonitor_def)

lemma audio_step_stopped:
  "stopped s \<Longrightarrow> stopped (audio_step e s) \<and> spawned (audio_step e s) = spawned s"
  by (induction e s rule: audio_step.induct)
    (auto simp: stop_kill_def onExit_def startMonitor_def loop_to_def call_def Let_def
      split: option.splits AudioWait.splits sum.splits)

lemma audio_run_stopped:
  "stopped s \<Longrightarrow> stopped (audio_run es s) \<and> spawned (audio_run es s) = spawned s"
proof (induction es arbitrary: s)
  case Nil
  then show ?case by (simp add: audio_run_def)
next
  case (Cons e es)
  from audio_step_stopped [OF Cons.prems, of e] Cons.IH [of "audio_step e s"]
  show ?case by (simp add: audio_run_def)
qed

lemma network_lines_stopped:
  "stopped s \<Longrightarrow>
   stopped (network_lines k l ls s) \<and> spawned (network_lines k l ls s) = spawned s"
  by (induction k l ls s rule: network_lines.induct)
    (auto simp: loop_to_def call_def split: option.splits)

lemma connection_settled_stopped:
  "stopped (connection_settled r s) = stopped s \<and> spawned (connection_settled r s) = spawned s"
  by (auto simp: connection_settled_def call_def split: sum.splits option.splits)

lemma network_step_stopped:
  "stopped s \<Longrightarrow> stopped (network_step e s) \<and> spawned (network_step e s) = spawned s"
proof (induction e s rule: network_step.induct)
  case (5 k chunk s)
  then show ?case
    by (auto simp: loop_to_def split: option.splits NetworkWait.splits)
next
  case (8 k r s)
  then show ?case
    using network_lines_stopped connection_settled_stopped
    by (auto split: option.splits NetworkWait.splits)
qed (auto simp: stop_kill_def onExit_def startMonitor_def loop_to_def call_def Let_def
      split: option.splits NetworkWait.splits sum.splits list.splits)

lemma network_run_stopped:
  "stopped s \<Longrightarrow> stopped (network_run es s) \<and> spawned (network_run es s) = spawned s"
proof (induction es arbitrary: s)
  case Nil
  then show ?case by (simp add: network_run_def)
next
  case (Cons e es)
  from network_step_stopped [OF Cons.prems, of e] Cons.IH [of "network_step e s"]
  show ?case by (simp add: network_run_def)
qed

subsection \<open>After the stop function: callbacks\<close>

text \<open>
  When nothing is in flight at the time the stop function is invoked, no callback is
  invoked afterwards, whatever is delivered: chunks, stream errors, exits, timeouts
  and interval ticks all test \<^verbatim>\<open>stopped\<close>.
\<close>

lemma audio_idle_loop:
  "audio_idle s \<Longrightarrow> loops s k = Some l \<Longrightarrow> waiting l = NextChunk \<or> waiting l = Returned"
  by (auto simp: audio_idle_def)

lemma audio_step_idle:
  "stopped s \<Longrightarrow> audio_idle s \<Longrightarrow>
   audio_idle (audio_step e s) \<and> calls (audio_step e s) = calls s"
proof (induction e s rule: audio_step.induct)
  case (8 k r s)
  then show ?case by (auto split: option.splits AudioWait.splits dest: audio_idle_loop)
next
  case (9 k r s)
  then show ?case by (auto split: option.splits AudioWait.splits dest: audio_idle_loop)
qed (auto simp: audio_idle_def stop_kill_def onExit_def startMonitor_def loop_to_def call_def
      Let_def split: option.splits AudioWait.splits sum.splits if_splits)

lemma audio_run_idle:
  "stopped s \<Longrightarrow> audio_idle s \<Longrightarrow> calls (audio_run es s) = calls s"
proof (induction es arbitrary: s)
  case Nil
  then show ?case by (simp add: audio_run_def)
next
  case (Cons e es)
  from audio_step_stopped [OF Cons.prems(1), of e] audio_step_idle [OF Cons.prems, of e]
    Cons.IH [of "audio_step e s"]
  show ?case by (simp add: audio_run_def)
qed

lemma network_idle_loop:
  "network_idle s \<Longrightarrow> loops s k = Some l \<Longrightarrow>
   waiting l = NetNextChunk \<or> waiting l = NetReturned"
  by (auto simp: network_idle_def)

lemma network_step_idle:
  "stopped s \<Longrightarrow> network_idle s \<Longrightarrow>
   network_idle (network_step e s) \<and> calls (network_step e s) = calls s"
proof (induction e s rule: network_step.induct)
  case (8 k r s)
  then show ?case by (auto split: option.splits NetworkWait.splits dest: network_idle_loop)
qed (auto simp: network_idle_def stop_kill_def onExit_def startMonitor_def loop_to_def call_def
      Let_def split: option.splits NetworkWait.splits sum.splits if_splits)

lemma network_run_idle:
  "stopped s \<Longrightarrow> network_idle s \<Longrightarrow> calls (network_run es s) = calls s"
proof (induction es arbitrary: s)
  case Nil
  then show ?case by (simp add: network_run_def)
next
  case (Cons e es)
  from network_step_stopped [OF Cons.prems(1), of e] network_step_idle [OF Cons.prems, of e]
    Cons.IH [of "network_step e s"]
  show ?case by (simp add: network_run_def)
qed

text \<open>
  C6. After the stop function has been invoked, no callback should be invoked by
  later read-loop activity. Evaluated on the two monitors that are in the middle of
  a chunk (\<open>audio_in_chunk\<close>, \<open>network_in_chunk\<close>): the stop function sets
  \<^verbatim>\<open>stopped\<close>; then the query the read loop was awaiting settles, and the read loop,
  which tests \<^verbatim>\<open>stopped\<close> only when a chunk arrives, goes on with the lines of its
  chunk. The audio monitor invokes \<^verbatim>\<open>onVolumeChange\<close> for the first line and, the
  query of the second line failing, \<^verbatim>\<open>onError\<close>; the network monitor invokes
  \<^verbatim>\<open>onConnect\<close> for the first line and \<^verbatim>\<open>onDisconnect\<close> for the second.
\<close>

theorem callbacks_after_stop:
  "stopped (audio_step Stop audio_in_chunk)
   \<and> calls (audio_step Stop audio_in_chunk) = [OnVolumeChange (40, False)]
   \<and> calls (audio_run
         [Stop, Settled 0 (Volume (Inr (55, True))), Settled 0 (SinkName (Inl ''pactl failed''))]
         audio_in_chunk) =
       [OnVolumeChange (40, False), OnVolumeChange (55, True), OnAudioError ''pactl failed'']
   \<and> stopped (network_step Stop network_in_chunk)
   \<and> calls (network_step Stop network_in_chunk) = []
   \<and> calls (network_run [Stop, Settled 0 (Inr (Some (NetworkStatus ''Home'' ''wlan0'')))]
         network_in_chunk) =
       [OnConnect (NetworkStatus ''Home'' ''wlan0''), OnDisconnect]"
  by code_simp

end
